theory Spec2Isabelle
  imports Main "HOL-Library.Word"
begin

section \<open>The serial link\<close>

text \<open>
  The program is \<^verbatim>\<open>pool_controller.py\<close>: a client of the Pentair RS485 bus. The port
  delivers bytes; \<^verbatim>\<open>ord(self.port.read())\<close> and \<^verbatim>\<open>[x for x in self.port.read(n)]\<close> turn
  them into Python integers, so a packet is a list of \<open>int\<close>. The port is opened without a
  timeout: a read of \<open>n\<close> bytes returns exactly \<open>n\<close> bytes or does not return. The bytes still
  to arrive are a list; a read that asks for more than the list holds never returns, which
  the model writes as \<open>None\<close>.
\<close>

type_synonym byte = "8 word"

definition port_read :: "nat \<Rightarrow> byte list \<Rightarrow> (byte list \<times> byte list) option" where
  "port_read n s = (if length s < n then None else Some (take n s, drop n s))"

subsection \<open>\<^verbatim>\<open>get_packet\<close>: synchronisation, assembly, checksum\<close>

definition preamble :: "int list" where
  "preamble = [255, 0, 255, 165]"

text \<open>
  Lines 104 to 107: the four-byte window slides one byte at a time until it holds the
  preamble. The result is what is left of the stream after the preamble.
\<close>

fun sync :: "int list \<Rightarrow> byte list \<Rightarrow> byte list option" where
  "sync header [] = (if header \<noteq> preamble then None else Some [])"
| "sync header (b # bs) =
     (if header \<noteq> preamble then sync (tl header @ [uint b]) bs else Some (b # bs))"

text \<open>
  Lines 108 to 112: the packet starts with 165, then five bytes, then as many bytes as the
  last of these five says (\<^verbatim>\<open>packet[-1]\<close>), then two bytes read as a big-endian number.
  \<open>read_frame\<close> returns the packet, that number and the rest of the stream.
\<close>

definition read_frame :: "byte list \<Rightarrow> (int list \<times> int \<times> byte list) option" where
  "read_frame s =
     (case sync [0, 0, 0, 0] s of
        None \<Rightarrow> None
      | Some s1 \<Rightarrow>
          (case port_read 5 s1 of
             None \<Rightarrow> None
           | Some (h, s2) \<Rightarrow>
               (let packet = [165] @ map uint h in
                case port_read (nat (last packet)) s2 of
                  None \<Rightarrow> None
                | Some (p, s3) \<Rightarrow>
                    (let packet = packet @ map uint p in
                     case port_read 1 s3 of
                       None \<Rightarrow> None
                     | Some (hi, s4) \<Rightarrow>
                         (case port_read 1 s4 of
                            None \<Rightarrow> None
                          | Some (lo, s5) \<Rightarrow>
                              Some (packet, uint (hd hi) * 256 + uint (hd lo), s5))))))"

text \<open>
  Lines 113 to 119: \<^verbatim>\<open>sum(packet)\<close> is compared with the transmitted number; on a
  mismatch the empty list is returned in place of the packet.
\<close>

definition get_packet :: "byte list \<Rightarrow> (int list \<times> byte list) option" where
  "get_packet s =
     (case read_frame s of
        None \<Rightarrow> None
      | Some (packet, checksum, rest) \<Rightarrow>
          (let packet_checksum = sum_list packet in
           if packet_checksum \<noteq> checksum then Some ([], rest) else Some (packet, rest)))"

lemma port_read_length:
  "port_read n s = Some (xs, rest) \<Longrightarrow> length xs = n \<and> s = xs @ rest"
  by (auto simp: port_read_def split: if_splits)

lemma sync_suffix: "sync header s = Some rest \<Longrightarrow> length rest \<le> length s"
  by (induction header s rule: sync.induct) (auto split: if_splits intro: le_SucI)

text \<open>
  What \<open>read_frame\<close> assembles: 165, five bytes and the payload the sixth element counts,
  every element a byte value; at least seven bytes of the stream are used up.
\<close>

lemma read_frame_packet:
  assumes "read_frame s = Some (packet, checksum, rest)"
  shows "length packet = 6 + nat (packet ! 5) \<and> packet ! 0 = 165
         \<and> (\<forall>x \<in> set packet. 0 \<le> x \<and> x < 256) \<and> 0 \<le> checksum \<and> checksum < 65536
         \<and> length rest + 7 \<le> length s"
proof -
  from assms obtain s1 h s2 p s3 hi s4 lo where
    s1: "sync [0, 0, 0, 0] s = Some s1" and
    h: "port_read 5 s1 = Some (h, s2)" and
    p: "port_read (nat (last ([165] @ map uint h))) s2 = Some (p, s3)" and
    hi: "port_read 1 s3 = Some (hi, s4)" and
    lo: "port_read 1 s4 = Some (lo, rest)" and
    pk: "packet = [165] @ map uint h @ map uint p" and
    ck: "checksum = uint (hd hi) * 256 + uint (hd lo)"
    by (auto simp: read_frame_def Let_def split: option.splits prod.splits)
  from port_read_length[OF h] have lh: "length h = 5" and s1e: "s1 = h @ s2" by auto
  from port_read_length[OF p]
  have lp: "length p = nat (last ([165] @ map uint h))" and s2e: "s2 = p @ s3" by auto
  from port_read_length[OF hi] have s3e: "length hi = 1" "s3 = hi @ s4" by auto
  from port_read_length[OF lo] have s4e: "length lo = 1" "s4 = lo @ rest" by auto
  from lh obtain a b c d e where hh: "h = [a, b, c, d, e]"
    by (auto simp: length_Suc_conv eval_nat_numeral)
  have len: "length packet = 6 + nat (packet ! 5)" using lp by (simp add: pk hh)
  have z: "packet ! 0 = 165" by (simp add: pk)
  have rng: "\<forall>x \<in> set packet. 0 \<le> x \<and> x < 256"
  proof
    fix x assume "x \<in> set packet"
    then consider "x = 165" | w :: byte where "x = uint w" by (auto simp: pk)
    then show "0 \<le> x \<and> x < 256"
    proof cases
      case 1 then show ?thesis by simp
    next
      case 2 then show ?thesis using uint_lt2p[of w] by simp
    qed
  qed
  have c: "0 \<le> checksum \<and> checksum < 65536"
    using uint_lt2p[of "hd hi"] uint_lt2p[of "hd lo"] by (simp add: ck)
  have l: "length rest + 7 \<le> length s"
    using sync_suffix[OF s1] lh s3e s4e by (simp add: s1e s2e)
  show ?thesis using len z rng c l by blast
qed

lemma get_packet_shorter: "get_packet s = Some (packet, rest) \<Longrightarrow> length rest < length s"
  by (auto simp: get_packet_def Let_def split: option.splits prod.splits if_splits
           dest!: read_frame_packet)

section \<open>Python values, the class constants, the object\<close>

text \<open>
  The values the status dictionary holds and the \<^verbatim>\<open>state\<close> argument may be: strings,
  integers, booleans, and the \<^verbatim>\<open>datetime\<close> of the last update (microseconds).
\<close>

datatype pyval = PStr string | PInt int | PBool bool | PDateTime int

text \<open>Python's \<^verbatim>\<open>==\<close> on these values; \<^verbatim>\<open>True == 1\<close> and \<^verbatim>\<open>False == 0\<close> hold there.\<close>

fun py_eq :: "pyval \<Rightarrow> pyval \<Rightarrow> bool" where
  "py_eq (PStr a) (PStr b) = (a = b)"
| "py_eq (PInt a) (PInt b) = (a = b)"
| "py_eq (PBool a) (PBool b) = (a = b)"
| "py_eq (PInt a) (PBool b) = (a = (if b then 1 else 0))"
| "py_eq (PBool a) (PInt b) = ((if a then 1 else 0) = b)"
| "py_eq (PDateTime a) (PDateTime b) = (a = b)"
| "py_eq _ _ = False"

datatype error = KeyError | IndexError | OverflowError | AssertionError

definition timeout :: int where "timeout = 5"
definition Equip1 :: nat where "Equip1 = 8"
definition Equip2 :: nat where "Equip2 = 9"
definition WaterTemp :: nat where "WaterTemp = 20"
definition AirTemp :: nat where "AirTemp = 24"

definition Ctrl_MAIN :: int where "Ctrl_MAIN = 0x10"
definition Ctrl_REMOTE :: int where "Ctrl_REMOTE = 0x20"
definition Ctrl_PUMP1 :: int where "Ctrl_PUMP1 = 0x60"
definition Ctrl_BROADCAST :: int where "Ctrl_BROADCAST = 0x0f"

definition Controller :: "int \<rightharpoonup> string" where
  "Controller = [Ctrl_MAIN \<mapsto> ''Main'', Ctrl_REMOTE \<mapsto> ''Remote'',
                 Ctrl_PUMP1 \<mapsto> ''Pump1'', Ctrl_BROADCAST \<mapsto> ''Broadcast'']"

definition state :: "int \<rightharpoonup> string" where
  "state = [0 \<mapsto> ''off'', 1 \<mapsto> ''on'']"

definition Feature_SPA :: int where "Feature_SPA = 1"
definition Feature_CLEANER :: int where "Feature_CLEANER = 2"
definition Feature_AIR_BLOWER :: int where "Feature_AIR_BLOWER = 3"
definition Feature_SPA_LIGHT :: int where "Feature_SPA_LIGHT = 4"
definition Feature_POOL_LIGHT :: int where "Feature_POOL_LIGHT = 5"
definition Feature_POOL :: int where "Feature_POOL = 6"
definition Feature_WATER_FEATURE :: int where "Feature_WATER_FEATURE = 7"
definition Feature_SPILLWAY :: int where "Feature_SPILLWAY = 8"
definition Feature_AUX :: int where "Feature_AUX = 9"

definition FeatureName :: "(string \<times> int) list" where
  "FeatureName =
     [(''pool'', Feature_POOL), (''spa'', Feature_SPA), (''cleaner'', Feature_CLEANER),
      (''air_blower'', Feature_AIR_BLOWER), (''spa_light'', Feature_SPA_LIGHT),
      (''pool_light'', Feature_POOL_LIGHT), (''water_feature'', Feature_WATER_FEATURE),
      (''spillway'', Feature_SPILLWAY), (''aux'', Feature_AUX)]"

text \<open>
  \<^verbatim>\<open>get_feature_name\<close> inverts the dictionary and looks the number up; a number that is no
  feature raises \<^verbatim>\<open>KeyError\<close>. A later item of a Python dictionary comprehension overwrites
  an earlier one with the same key, hence the \<open>rev\<close>.
\<close>

definition get_feature_name :: "int \<Rightarrow> error + string" where
  "get_feature_name feature_number =
     (case map_of (rev (map (\<lambda>(k, v). (v, k)) FeatureName)) feature_number of
        None \<Rightarrow> Inl KeyError
      | Some name \<Rightarrow> Inr name)"

text \<open>
  The object: the status dictionary, the \<^verbatim>\<open>ready\<close> flag, and the port (\<open>rx\<close> the bytes
  still to arrive, \<open>tx\<close> the writes made so far, oldest first).
\<close>

record pentair =
  status :: "string \<rightharpoonup> pyval"
  ready :: bool
  rx :: "byte list"
  tx :: "byte list list"

section \<open>\<^verbatim>\<open>read_status\<close>\<close>

subsection \<open>String formatting\<close>

text \<open>
  \<^verbatim>\<open>"{0:08b}".format(x)\<close> and \<^verbatim>\<open>"{0:02d}".format(x)\<close> for \<open>x \<ge> 0\<close> (the packet elements
  are byte values): the digits of \<open>x\<close>, most significant first, with zeros in front up to
  the width. A slice \<^verbatim>\<open>s[i:j]\<close> is \<open>slice i j s\<close>; \<^verbatim>\<open>int\<close> is applied to one-character
  slices of a binary rendering only.
\<close>

fun bin_str :: "nat \<Rightarrow> string" where
  "bin_str n = (if n < 2 then [''01'' ! n] else bin_str (n div 2) @ [''01'' ! (n mod 2)])"

fun dec_str :: "nat \<Rightarrow> string" where
  "dec_str n =
     (if n < 10 then [''0123456789'' ! n] else dec_str (n div 10) @ [''0123456789'' ! (n mod 10)])"

declare bin_str.simps [simp del] dec_str.simps [simp del]

definition zero_pad :: "nat \<Rightarrow> string \<Rightarrow> string" where
  "zero_pad width s = replicate (width - length s) (CHR ''0'') @ s"

definition format_08b :: "int \<Rightarrow> string" where
  "format_08b x = zero_pad 8 (bin_str (nat x))"

definition format_02d :: "int \<Rightarrow> string" where
  "format_02d x = zero_pad 2 (dec_str (nat x))"

definition slice :: "nat \<Rightarrow> nat \<Rightarrow> 'a list \<Rightarrow> 'a list" where
  "slice i j s = take (j - i) (drop i s)"

definition int_of_bit :: "string \<Rightarrow> int" where
  "int_of_bit s = (if s = ''1'' then 1 else 0)"

text \<open>\<^verbatim>\<open>self.state[int(equip[i:j])]\<close>\<close>

definition state_of_bit :: "string \<Rightarrow> nat \<Rightarrow> nat \<Rightarrow> pyval" where
  "state_of_bit equip i j = PStr (the (state (int_of_bit (slice i j equip))))"

subsection \<open>The loop of lines 170 to 194\<close>

definition controller_of :: "int \<Rightarrow> pyval" where
  "controller_of a = (case Controller a of Some name \<Rightarrow> PStr name | None \<Rightarrow> PInt a)"

text \<open>
  \<open>wait_packet\<close> is the \<^verbatim>\<open>while not done\<close> loop. \<^verbatim>\<open>get_packet\<close> returns the empty list or
  a list of at least six elements (\<open>read_frame_packet\<close>), so the reads of \<^verbatim>\<open>packet[2]\<close>,
  \<^verbatim>\<open>packet[3]\<close>, \<^verbatim>\<open>packet[4]\<close> behind \<^verbatim>\<open>len(packet) > 3\<close> and of \<^verbatim>\<open>packet[9]\<close> to
  \<^verbatim>\<open>packet[12]\<close> behind \<^verbatim>\<open>len(packet) == 21\<close> are in range. The pump telemetry is stored
  inside the loop. The loop ends with the packet, the two resolved addresses, the
  dictionary and the rest of the stream; it does not end when the stream runs dry.
\<close>

function wait_packet ::
  "int option \<Rightarrow> (string \<rightharpoonup> pyval) \<Rightarrow> byte list
   \<Rightarrow> (int list \<times> pyval \<times> pyval \<times> (string \<rightharpoonup> pyval) \<times> byte list) option" where
  "wait_packet controller st s =
     (case get_packet s of
        None \<Rightarrow> None
      | Some (packet, rest) \<Rightarrow>
          if length packet > 3 then
            (let dst_controller = controller_of (packet ! 2);
                 src_controller = controller_of (packet ! 3);
                 st' = (if src_controller = PStr ''Pump1'' \<and> packet ! 4 = 0x07
                           \<and> length packet = 21
                        then st(''pump_watts'' \<mapsto> PInt (push_bit 8 (packet ! 9) + packet ! 10),
                                ''pump_rpm'' \<mapsto> PInt (push_bit 8 (packet ! 11) + packet ! 12))
                        else st)
             in if controller = None \<or> packet ! 2 = Ctrl_BROADCAST
                then Some (packet, src_controller, dst_controller, st', rest)
                else wait_packet controller st' rest)
          else wait_packet controller st rest)"
  by pat_completeness auto
termination
  by (relation "measure (\<lambda>(controller, st, s). length s)") (auto dest: get_packet_shorter)

declare wait_packet.simps [simp del]

subsection \<open>The decoding of lines 196 to 219\<close>

text \<open>
  \<open>equipment_status\<close> is the block of lines 198 to 212, \<open>decode_status\<close> the whole of lines
  196 to 218. The dictionary is written entry by entry, so an \<^verbatim>\<open>IndexError\<close> leaves the
  entries written before it in place and \<^verbatim>\<open>ready\<close> as it was. The result is the exception,
  if one was raised, and the object. \<open>now\<close> is the reading of \<^verbatim>\<open>datetime.datetime.now()\<close>.
\<close>

definition equipment_status ::
  "int \<Rightarrow> pyval \<Rightarrow> pyval \<Rightarrow> int list \<Rightarrow> (string \<rightharpoonup> pyval) \<Rightarrow> (string \<rightharpoonup> pyval)" where
  "equipment_status now src_controller dst_controller packet st =
     (let equip1 = format_08b (packet ! Equip1);
          equip2 = format_08b (packet ! Equip2)
      in st(''last_update'' \<mapsto> PDateTime now,
            ''source'' \<mapsto> src_controller,
            ''destination'' \<mapsto> dst_controller,
            ''time'' \<mapsto> PStr (format_02d (packet ! 6) @ '':'' @ format_02d (packet ! 7)),
            ''spillway'' \<mapsto> state_of_bit equip1 0 1,
            ''pool'' \<mapsto> state_of_bit equip1 2 3,
            ''spa'' \<mapsto> state_of_bit equip1 7 8,
            ''air_blower'' \<mapsto> state_of_bit equip1 5 6,
            ''pool_light'' \<mapsto> state_of_bit equip1 3 4,
            ''spa_light'' \<mapsto> state_of_bit equip1 4 5,
            ''cleaner'' \<mapsto> state_of_bit equip1 6 7,
            ''water_feature'' \<mapsto> state_of_bit equip1 1 2,
            ''aux'' \<mapsto> state_of_bit equip2 7 8))"

definition decode_status ::
  "int \<Rightarrow> pyval \<Rightarrow> pyval \<Rightarrow> int list \<Rightarrow> pentair \<Rightarrow> error option \<times> pentair" where
  "decode_status now src_controller dst_controller packet self =
     (if length packet \<le> 5 then (Some IndexError, self)
      else let data_length = packet ! 5 in
        if data_length > 8 then
          if length packet \<le> Equip1 \<or> length packet \<le> Equip2 then (Some IndexError, self)
          else
            let self = self\<lparr>status :=
                         equipment_status now src_controller dst_controller packet (status self)\<rparr>
            in
              if length packet \<ge> WaterTemp then
                if length packet \<le> WaterTemp then (Some IndexError, self)
                else
                  let self = self\<lparr>status := (status self)
                               (''water_temp'' \<mapsto> PInt (packet ! WaterTemp))\<rparr>
                  in
                    if length packet \<ge> AirTemp then
                      if length packet \<le> AirTemp then (Some IndexError, self)
                      else
                        (None, self\<lparr>status := (status self)
                                       (''air_temp'' \<mapsto> PInt (packet ! AirTemp)),
                                     ready := True\<rparr>)
                    else (None, self\<lparr>ready := True\<rparr>)
              else (None, self\<lparr>ready := True\<rparr>)
        else (None, self\<lparr>ready := True\<rparr>))"

text \<open>
  \<^verbatim>\<open>read_status(controller)\<close>: \<open>controller\<close> is \<^verbatim>\<open>None\<close> or an address. \<open>None\<close> as a result:
  the call never returns, the port having no more bytes.
\<close>

definition read_status ::
  "int option \<Rightarrow> int \<Rightarrow> pentair \<Rightarrow> (error option \<times> pentair) option" where
  "read_status controller now self =
     (case wait_packet controller (status self) (rx self) of
        None \<Rightarrow> None
      | Some (packet, src_controller, dst_controller, st, rest) \<Rightarrow>
          Some (decode_status now src_controller dst_controller packet
                  (self\<lparr>status := st, rx := rest\<rparr>)))"

section \<open>\<^verbatim>\<open>get_status\<close> and \<^verbatim>\<open>send_command\<close>\<close>

text \<open>
  Lines 228 to 235: \<^verbatim>\<open>get_status\<close> clears \<^verbatim>\<open>ready\<close>, then tests it and sleeps a tenth of a
  second, again and again. Nothing in \<^verbatim>\<open>get_status\<close> sets the flag: the thread of \<^verbatim>\<open>run\<close>
  does, which goes on calling \<^verbatim>\<open>read_status\<close> meanwhile, with no lock between the two.
  What that thread does to the object is a parameter: \<open>env i\<close> is its effect during the
  \<open>i\<close>-th sleep (that of \<open>env 0\<close> includes what it does between the clearing and the first
  test). It may be nothing, part of a pass, the last two lines of a pass, or several passes.
  A wait that never sees the flag set does not return: \<open>None\<close>. The dictionary is returned
  by reference: what the caller holds is \<open>status\<close> of the object.
\<close>

partial_function (option) sleep_until_ready ::
  "(nat \<Rightarrow> pentair \<Rightarrow> pentair) \<Rightarrow> nat \<Rightarrow> pentair \<Rightarrow> pentair option" where
  "sleep_until_ready env i self =
     (if ready self then Some self else sleep_until_ready env (Suc i) (env i self))"

definition get_status :: "(nat \<Rightarrow> pentair \<Rightarrow> pentair) \<Rightarrow> pentair \<Rightarrow> pentair option" where
  "get_status env self = sleep_until_ready env 0 (self\<lparr>ready := False\<rparr>)"

text \<open>
  Lines 134 to 140. \<^verbatim>\<open>int(checksum / 256)\<close> divides as floating point and truncates towards
  zero; the quotient by 256 is exact for every integer below \<open>2 ^ 53\<close> in size.
  \<^verbatim>\<open>array.array('B', ...)\<close> raises \<^verbatim>\<open>OverflowError\<close> for an element outside 0 to 255.
\<close>

definition int_truediv_256 :: "int \<Rightarrow> int" where
  "int_truediv_256 c = (if 0 \<le> c then c div 256 else - ((- c) div 256))"

definition command_packet :: "int \<Rightarrow> pyval \<Rightarrow> int list" where
  "command_packet feature st =
     (let packet = [165, 31, Ctrl_MAIN, Ctrl_REMOTE, 134, 2, feature,
                    if py_eq st (PStr ''on'') then 1 else 0];
          checksum = sum_list packet
      in packet @ [int_truediv_256 checksum, checksum mod 256])"

definition array_B :: "int list \<Rightarrow> error + byte list" where
  "array_B xs =
     (if \<forall>x \<in> set xs. 0 \<le> x \<and> x \<le> 255 then Inr (map word_of_int xs) else Inl OverflowError)"

text \<open>\<^verbatim>\<open>data\<close> of line 140: the bytes handed to \<^verbatim>\<open>self.port.write\<close>.\<close>

definition command_data :: "int \<Rightarrow> pyval \<Rightarrow> error + byte list" where
  "command_data feature st = array_B ([0x00, 0xff] @ command_packet feature st)"

definition port_write :: "byte list \<Rightarrow> pentair \<Rightarrow> pentair" where
  "port_write data self = self\<lparr>tx := tx self @ [data]\<rparr>"

text \<open>
  Lines 145 to 151: the retry loop. \<open>gs\<close> is \<^verbatim>\<open>self.get_status\<close>, whose result depends on what
  the polling thread does meanwhile; \<open>gs self = None\<close> when it never returns. The condition
  reads \<^verbatim>\<open>status[feature_name]\<close> first, which raises \<^verbatim>\<open>KeyError\<close> for a dictionary without
  that entry. The loop ends with the value of \<^verbatim>\<open>retry\<close>.
\<close>

fun retry_loop ::
  "(pentair \<Rightarrow> pentair option) \<Rightarrow> string \<Rightarrow> pyval \<Rightarrow> byte list \<Rightarrow> nat \<Rightarrow> pentair
   \<Rightarrow> ((error + nat) \<times> pentair) option" where
  "retry_loop gs feature_name st data 0 self =
     (case status self feature_name of
        None \<Rightarrow> Some (Inl KeyError, self)
      | Some v \<Rightarrow> Some (Inr 0, self))"
| "retry_loop gs feature_name st data (Suc retry) self =
     (case status self feature_name of
        None \<Rightarrow> Some (Inl KeyError, self)
      | Some v \<Rightarrow>
          if \<not> py_eq v st then
            (case gs (port_write data self) of
               None \<Rightarrow> None
             | Some self' \<Rightarrow> retry_loop gs feature_name st data retry self')
          else Some (Inr (Suc retry), self))"

text \<open>
  \<^verbatim>\<open>send_command(feature, state)\<close>. \<open>start\<close> and \<open>finish\<close> are the readings of the clock at
  lines 142 and 152, in microseconds; \<^verbatim>\<open>total_seconds() > self.timeout\<close> compares their
  difference with the timeout. The read of \<^verbatim>\<open>status[feature_name]\<close> at line 144 is the read
  the loop condition makes first, on the same dictionary, so its \<^verbatim>\<open>KeyError\<close> is the one
  of \<open>retry_loop\<close>. The result is the exception raised or the dictionary returned, with
  the object; \<open>None\<close> when the call never returns.
\<close>

definition send_command ::
  "(pentair \<Rightarrow> pentair option) \<Rightarrow> int \<Rightarrow> int \<Rightarrow> int \<Rightarrow> pyval \<Rightarrow> pentair
   \<Rightarrow> ((error + (string \<rightharpoonup> pyval)) \<times> pentair) option" where
  "send_command gs start finish feature st self =
     (let retry = 5 in
      case get_feature_name feature of
        Inl e \<Rightarrow> Some (Inl e, self)
      | Inr feature_name \<Rightarrow>
          (case command_data feature st of
             Inl e \<Rightarrow> Some (Inl e, self)
           | Inr data \<Rightarrow>
               (case gs (port_write data self) of
                  None \<Rightarrow> None
                | Some self1 \<Rightarrow>
                    (case retry_loop gs feature_name st data retry self1 of
                       None \<Rightarrow> None
                     | Some (Inl e, self2) \<Rightarrow> Some (Inl e, self2)
                     | Some (Inr retry', self2) \<Rightarrow>
                         if finish - start > timeout * 1000000
                         then Some (Inl AssertionError, self2)
                         else Some (Inr (status self2), self2)))))"

text \<open>
  The two address fields of a packet, as \<^verbatim>\<open>read_status\<close> reads them at lines 174 and 179.
\<close>

definition dst_field :: "int list \<Rightarrow> int" where
  "dst_field packet = packet ! 2"

definition src_field :: "int list \<Rightarrow> int" where
  "src_field packet = packet ! 3"

section \<open>Notions for the statements, and example frames\<close>

text \<open>
  The rule of the specification, in its words: the trailing value equals the sum of the
  bytes from the destination byte (\<^verbatim>\<open>packet[2]\<close>, see \<^verbatim>\<open>read_status\<close>) through the last
  payload byte, modulo 65536.
\<close>

definition spec_checksum_ok :: "int list \<Rightarrow> int \<Rightarrow> bool" where
  "spec_checksum_ok packet checksum \<longleftrightarrow> checksum = sum_list (drop 2 packet) mod 65536"

text \<open>
  \<open>frame_33\<close>: a broadcast frame from the main controller with an empty payload; its trailing
  value is 199. \<open>frame_big\<close>: a frame whose elements sum to 66465, with the trailing value
  929. \<open>frame_status\<close>: a broadcast status frame with nine payload bytes, time 10:30, first
  equipment byte 161 and second equipment byte 0. \<open>frame_bad\<close>: the same with the last
  checksum byte changed. \<open>frame_len20\<close>: a status frame with fourteen payload bytes, twenty
  packet elements in all.
\<close>

definition frame_33 :: "byte list" where
  "frame_33 = [255, 0, 255, 165, 1, 15, 16, 2, 0, 0, 199]"

definition frame_big :: "byte list" where
  "frame_big = [255, 0, 255, 165] @ replicate 5 255 @ replicate 255 255 @ [3, 161]"

definition frame_status :: "byte list" where
  "frame_status =
     [255, 0, 255, 165, 1, 15, 16, 2, 9, 10, 30, 161, 0, 0, 0, 0, 0, 0, 1, 153]"

definition frame_bad :: "byte list" where
  "frame_bad =
     [255, 0, 255, 165, 1, 15, 16, 2, 9, 10, 30, 161, 0, 0, 0, 0, 0, 0, 1, 152]"

definition frame_len20 :: "byte list" where
  "frame_len20 =
     [255, 0, 255, 165, 1, 15, 16, 2, 14, 10, 30, 161, 0,
      0, 0, 0, 0, 0, 0, 0, 0, 0, 0, 1, 158]"

text \<open>An object whose dictionary holds an earlier reading, the pool off.\<close>

definition self_off :: "byte list \<Rightarrow> pentair" where
  "self_off bytes =
     \<lparr>status = [''pool'' \<mapsto> PStr ''off''], ready = False, rx = bytes, tx = []\<rparr>"

text \<open>The character of a bit, for stating what \<open>format_08b\<close> returns.\<close>

definition bit_char :: "bool \<Rightarrow> char" where
  "bit_char b = (if b then CHR ''1'' else CHR ''0'')"

text \<open>
  Two behaviours of the polling thread during a sleep, and one run of the wait.
  \<open>pass now\<close>: the thread completes one pass, reading the clock as \<open>now\<close>; when the bus has
  no frame to end the pass with, the object is taken as it was. \<open>set_ready\<close>: the thread
  executes lines 217 and 218 of a pass whose dictionary entries it has written before.
  \<open>one_pass_wait now\<close>: the run of \<^verbatim>\<open>get_status\<close> in which the thread completes exactly one
  pass between the clearing of the flag and the wake-up; \<open>None\<close> when that pass does not
  end or raises, the flag staying cleared.
\<close>

definition pass :: "int \<Rightarrow> pentair \<Rightarrow> pentair" where
  "pass now self =
     (case read_status (Some Ctrl_BROADCAST) now self of
        None \<Rightarrow> self
      | Some (e, self') \<Rightarrow> self')"

definition set_ready :: "pentair \<Rightarrow> pentair" where
  "set_ready self = self\<lparr>ready := True\<rparr>"

definition one_pass_wait :: "int \<Rightarrow> pentair \<Rightarrow> pentair option" where
  "one_pass_wait now self =
     (case read_status (Some Ctrl_BROADCAST) now (self\<lparr>ready := False\<rparr>) of
        None \<Rightarrow> None
      | Some (Some e, self') \<Rightarrow> None
      | Some (None, self') \<Rightarrow> if ready self' then Some self' else None)"

text \<open>
  \<open>frame_pool_off\<close>: as \<open>frame_status\<close>, with the first equipment byte 129, the pool bit
  clear. \<open>packet_161\<close> and \<open>packet_129\<close>: the packets of \<open>frame_status\<close> and
  \<open>frame_pool_off\<close>. \<open>pool_on_data\<close>: the bytes written for the pool feature and the state
  \<^verbatim>\<open>"on"\<close>. \<open>after_frame_status\<close>: the object \<open>self_off frame_status\<close> after one write of
  \<open>pool_on_data\<close> and one pass over \<open>frame_status\<close>.
\<close>

definition frame_pool_off :: "byte list" where
  "frame_pool_off =
     [255, 0, 255, 165, 1, 15, 16, 2, 9, 10, 30, 129, 0, 0, 0, 0, 0, 0, 1, 121]"

definition pool_on_data :: "byte list" where
  "pool_on_data = [0, 255, 165, 31, 16, 32, 134, 2, 6, 1, 1, 131]"

definition packet_161 :: "int list" where
  "packet_161 = [165, 1, 15, 16, 2, 9, 10, 30, 161, 0, 0, 0, 0, 0, 0]"

definition packet_129 :: "int list" where
  "packet_129 = [165, 1, 15, 16, 2, 9, 10, 30, 129, 0, 0, 0, 0, 0, 0]"

definition after_frame_status :: "int \<Rightarrow> pentair" where
  "after_frame_status now =
     \<lparr>status = equipment_status now (PStr ''Main'') (PStr ''Broadcast'') packet_161
                 [''pool'' \<mapsto> PStr ''off''],
      ready = True, rx = [], tx = [pool_on_data]\<rparr>"

text \<open>
  \<open>rounds gs data k\<close>: \<open>k\<close> times a write of \<open>data\<close> followed by \<^verbatim>\<open>get_status\<close>, as
  \<^verbatim>\<open>send_command\<close> does once before its loop and once in each turn of it.
\<close>

fun rounds :: "(pentair \<Rightarrow> pentair option) \<Rightarrow> byte list \<Rightarrow> nat \<Rightarrow> pentair \<Rightarrow> pentair option" where
  "rounds gs data 0 self = Some self"
| "rounds gs data (Suc k) self =
     (case gs (port_write data self) of None \<Rightarrow> None | Some self' \<Rightarrow> rounds gs data k self')"

section \<open>The checksum of a received frame\<close>

lemma sync_preamble: "sync [0, 0, 0, 0] ([255, 0, 255, 165] @ s) = Some s"
  by (cases s) (simp_all add: preamble_def)

text \<open>
  A stream that starts with the preamble, five bytes \<open>h\<close>, the payload \<open>p\<close> that the last byte of
  \<open>h\<close> counts, and two more bytes: the packet is 165 followed by \<open>h\<close> and \<open>p\<close>.
\<close>

lemma read_frame_bytes:
  assumes "length h = 5" and "length p = unat (last h)"
  shows "read_frame ([255, 0, 255, 165] @ h @ p @ [hi, lo] @ rest)
         = Some (165 # map uint (h @ p), uint hi * 256 + uint lo, rest)"
proof -
  have l: "last ([165] @ map uint h) = uint (last h)"
    using assms(1) by (cases h) (auto simp: last_map)
  have n: "nat (uint (last h)) = length p" using assms(2) by simp
  have r5: "port_read 5 (h @ p @ [hi, lo] @ rest) = Some (h, p @ [hi, lo] @ rest)"
    using assms(1) by (simp add: port_read_def)
  have rp: "port_read (length p) (p @ [hi, lo] @ rest) = Some (p, [hi, lo] @ rest)"
    by (simp add: port_read_def)
  have r1: "port_read 1 ([hi, lo] @ rest) = Some ([hi], lo # rest)"
    "port_read 1 (lo # rest) = Some ([lo], rest)"
    by (simp_all add: port_read_def)
  show ?thesis
    unfolding read_frame_def sync_preamble
    by (simp only: option.case prod.case Let_def r5 l n rp r1) simp
qed

lemma read_frame_33: "read_frame frame_33 = Some ([165, 1, 15, 16, 2, 0], 199, [])"
  by (simp add: frame_33_def read_frame_def port_read_def preamble_def)

text \<open>
  C1, as stated, fails. The reader accepts the frame \<open>frame_33\<close>, whose trailing value is
  199, the sum of all six elements of the packet; the bytes from the destination byte on
  sum to 33.
\<close>

theorem checksum_from_destination_counterexample:
  "read_frame frame_33 = Some ([165, 1, 15, 16, 2, 0], 199, [])
   \<and> get_packet frame_33 = Some ([165, 1, 15, 16, 2, 0], [])
   \<and> \<not> spec_checksum_ok [165, 1, 15, 16, 2, 0] 199"
  by (simp add: read_frame_33 get_packet_def spec_checksum_ok_def)

text \<open>
  C1, amended: for every frame the reader assembles, \<^verbatim>\<open>get_packet\<close> returns the packet if
  and only if the trailing two-byte big-endian value equals the sum of all the elements of
  the packet, from the 165 that ends the preamble through the last payload byte, and
  returns the empty list otherwise. The sum is not reduced modulo 65536.
\<close>

theorem get_packet_accepts_iff_sum:
  assumes "read_frame s = Some (packet, checksum, rest)"
  shows "(get_packet s = Some (packet, rest) \<longleftrightarrow> checksum = sum_list packet)
       \<and> (get_packet s = Some ([], rest) \<longleftrightarrow> checksum \<noteq> sum_list packet)"
proof -
  from read_frame_packet[OF assms] have "packet \<noteq> []" by auto
  then show ?thesis using assms by (auto simp: get_packet_def)
qed

theorem get_packet_accepts_iff_sum_witness:
  "read_frame frame_33 = Some ([165, 1, 15, 16, 2, 0], 199, [])
   \<and> get_packet frame_33 = Some ([165, 1, 15, 16, 2, 0], [])
   \<and> (199 :: int) = sum_list [165, 1, 15, 16, 2, 0]"
  using get_packet_accepts_iff_sum[OF read_frame_33] by (simp add: read_frame_33)

text \<open>
  No wrap-around: the trailing value is below 65536, so a packet whose elements sum to
  65536 or more is never returned, whatever its trailing bytes. \<open>frame_big\<close> carries the sum
  66465 and the trailing value 929, which is 66465 modulo 65536.
\<close>

lemma get_packet_no_wrap:
  assumes "read_frame s = Some (packet, checksum, rest)" and "65536 \<le> sum_list packet"
  shows "get_packet s = Some ([], rest)"
  using read_frame_packet[OF assms(1)] assms by (auto simp: get_packet_def)

lemma frame_big_rejected:
  "read_frame frame_big = Some (165 # replicate 260 255, 929, [])
   \<and> sum_list (165 # replicate 260 (255::int)) mod 65536 = 929
   \<and> get_packet frame_big = Some ([], [])"
proof -
  have r: "read_frame frame_big
           = Some (165 # map uint (replicate 5 255 @ replicate 255 (255::byte)),
                   uint (3::byte) * 256 + uint (161::byte), [])"
    unfolding frame_big_def
    using read_frame_bytes[of "replicate 5 255" "replicate 255 255" 3 161 "[]"] by simp
  have m: "map uint (replicate 5 255 @ replicate 255 (255::byte)) = replicate 260 255"
    by (simp add: replicate_add[symmetric])
  have s: "sum_list (replicate 260 (255::int)) = 66300" by (simp add: sum_list_replicate)
  from r m have r': "read_frame frame_big = Some (165 # replicate 260 255, 929, [])" by simp
  show ?thesis using r' s by (simp add: get_packet_def)
qed

section \<open>The command frame\<close>

lemma get_feature_name_range:
  "get_feature_name feature = Inr name \<Longrightarrow> 1 \<le> feature \<and> feature \<le> 9"
  by (simp add: get_feature_name_def FeatureName_def Feature_POOL_def Feature_SPA_def
        Feature_CLEANER_def Feature_AIR_BLOWER_def Feature_SPA_LIGHT_def Feature_POOL_LIGHT_def
        Feature_WATER_FEATURE_def Feature_SPILLWAY_def Feature_AUX_def split: if_splits)

lemma get_feature_name_POOL: "get_feature_name Feature_POOL = Inr ''pool''"
  by (simp add: get_feature_name_def FeatureName_def Feature_POOL_def Feature_SPA_def
        Feature_CLEANER_def Feature_AIR_BLOWER_def Feature_SPA_LIGHT_def Feature_POOL_LIGHT_def
        Feature_WATER_FEATURE_def Feature_SPILLWAY_def Feature_AUX_def)

lemma py_eq_PStr: "py_eq st (PStr s) \<longleftrightarrow> st = PStr s"
  by (cases st) auto

lemma divmod_256:
  "256 \<le> c \<Longrightarrow> c < 512 \<Longrightarrow> (c :: int) div 256 = 1 \<and> c mod 256 = c - 256"
  by presburger

lemma uint_byte: "0 \<le> c \<Longrightarrow> c < 256 \<Longrightarrow> uint (word_of_int c :: byte) = c"
  by (simp add: uint_word_of_int take_bit_int_eq_self)

lemma command_packet_eq:
  assumes "1 \<le> feature" and "feature \<le> 9"
  shows "command_packet feature st
         = [165, 31, 16, 32, 134, 2, feature, if st = PStr ''on'' then 1 else 0, 1,
            124 + feature + (if st = PStr ''on'' then 1 else 0)]"
  using assms divmod_256[of "380 + feature"] divmod_256[of "381 + feature"]
  by (simp add: command_packet_def Let_def py_eq_PStr Ctrl_MAIN_def Ctrl_REMOTE_def
        int_truediv_256_def)

lemma command_data_eq:
  assumes "1 \<le> feature" and "feature \<le> 9"
  shows "command_data feature st
         = Inr ([0, 255, 165, 31, 16, 32, 134, 2, word_of_int feature,
                 if st = PStr ''on'' then 1 else 0, 1,
                 word_of_int (124 + feature + (if st = PStr ''on'' then 1 else 0))])"
  using assms by (simp add: command_data_def command_packet_eq array_B_def)

lemma command_packet_POOL_on:
  "command_packet Feature_POOL (PStr ''on'') = [165, 31, 16, 32, 134, 2, 6, 1, 1, 131]"
  by (simp add: command_packet_def Feature_POOL_def Ctrl_MAIN_def Ctrl_REMOTE_def
        int_truediv_256_def)

text \<open>
  C3, as stated, fails: in the command frame for the pool feature the field that
  \<^verbatim>\<open>read_status\<close> reads as the source is not the main controller's address, and the field
  it reads as the destination is not the remote controller's.
\<close>

theorem command_source_is_main_counterexample:
  "get_feature_name Feature_POOL = Inr ''pool''
   \<and> src_field (command_packet Feature_POOL (PStr ''on'')) \<noteq> Ctrl_MAIN
   \<and> dst_field (command_packet Feature_POOL (PStr ''on'')) \<noteq> Ctrl_REMOTE"
  by (simp add: get_feature_name_POOL command_packet_POOL_on src_field_def dst_field_def
        Ctrl_MAIN_def Ctrl_REMOTE_def)

text \<open>
  C3, amended: for every feature that \<^verbatim>\<open>send_command\<close> accepts and every desired state, the
  command frame carries the main controller's address in the destination field and the
  remote controller's address in the source field, the command code 134, the payload
  length 2 and the payload [feature id, 1 or 0 for the desired state], and two trailing
  bytes \<open>hi\<close>, \<open>lo\<close> with \<open>hi * 256 + lo\<close> equal to the sum of the eight elements before them,
  which is the comparison \<^verbatim>\<open>get_packet\<close> makes.
\<close>

theorem command_packet_fields:
  assumes "get_feature_name feature = Inr name"
  shows "length (command_packet feature st) = 10
       \<and> command_packet feature st ! 0 = 165
       \<and> dst_field (command_packet feature st) = Ctrl_MAIN
       \<and> src_field (command_packet feature st) = Ctrl_REMOTE
       \<and> command_packet feature st ! 4 = 134
       \<and> command_packet feature st ! 5 = 2
       \<and> drop 6 (take 8 (command_packet feature st))
           = [feature, if st = PStr ''on'' then 1 else 0]
       \<and> sum_list (take 8 (command_packet feature st))
           = command_packet feature st ! 8 * 256 + command_packet feature st ! 9
       \<and> 0 \<le> command_packet feature st ! 8 \<and> command_packet feature st ! 8 < 256
       \<and> 0 \<le> command_packet feature st ! 9 \<and> command_packet feature st ! 9 < 256"
  using get_feature_name_range[OF assms]
  by (simp add: command_packet_eq dst_field_def src_field_def Ctrl_MAIN_def Ctrl_REMOTE_def)

theorem command_packet_fields_witness:
  "get_feature_name Feature_POOL = Inr ''pool''
   \<and> command_packet Feature_POOL (PStr ''on'') = [165, 31, 16, 32, 134, 2, 6, 1, 1, 131]
   \<and> dst_field (command_packet Feature_POOL (PStr ''on'')) = Ctrl_MAIN
   \<and> src_field (command_packet Feature_POOL (PStr ''on'')) = Ctrl_REMOTE
   \<and> sum_list (take 8 (command_packet Feature_POOL (PStr ''on''))) = 1 * 256 + 131"
  using command_packet_fields[OF get_feature_name_POOL, of "PStr ''on''"]
  by (simp add: get_feature_name_POOL command_packet_POOL_on dst_field_def src_field_def)

text \<open>
  C9: for every feature that \<^verbatim>\<open>send_command\<close> accepts and every desired state, the bytes
  written, read back by \<^verbatim>\<open>get_packet\<close> behind the 255 that completes the preamble (the
  written bytes start with 0, 255, 165), give the eight elements of the command packet;
  the trailing value read is the two appended bytes, and it equals the sum that the reader
  recomputes, so the frame is accepted.
\<close>

theorem command_round_trip:
  assumes "get_feature_name feature = Inr name"
  shows "\<exists>data. command_data feature st = Inr data
           \<and> read_frame (255 # data)
               = Some (take 8 (command_packet feature st),
                       command_packet feature st ! 8 * 256 + command_packet feature st ! 9, [])
           \<and> sum_list (take 8 (command_packet feature st))
               = command_packet feature st ! 8 * 256 + command_packet feature st ! 9
           \<and> get_packet (255 # data) = Some (take 8 (command_packet feature st), [])"
proof -
  from get_feature_name_range[OF assms] have f: "1 \<le> feature" "feature \<le> 9" by auto
  let ?b = "if st = PStr ''on'' then 1 else 0 :: int"
  let ?data = "[0, 255, 165, 31, 16, 32, 134, 2, word_of_int feature, word_of_int ?b, 1,
                word_of_int (124 + feature + ?b)] :: byte list"
  have d: "command_data feature st = Inr ?data"
    using f by (simp add: command_data_eq)
  have u: "uint (word_of_int feature :: byte) = feature"
    "uint (word_of_int ?b :: byte) = ?b"
    "uint (word_of_int (124 + feature + ?b) :: byte) = 124 + feature + ?b"
    using f uint_byte[of feature] uint_byte[of ?b] uint_byte[of "124 + feature + ?b"]
    by auto
  have r: "read_frame (255 # ?data)
        = Some ([165, 31, 16, 32, 134, 2, feature, ?b], 256 + (124 + feature + ?b), [])"
    using read_frame_bytes[of "[31, 16, 32, 134, 2]" "[word_of_int feature, word_of_int ?b]"
            1 "word_of_int (124 + feature + ?b)" "[]"] u
    by simp
  have p: "command_packet feature st
           = [165, 31, 16, 32, 134, 2, feature, ?b, 1, 124 + feature + ?b]"
    using f by (simp add: command_packet_eq)
  have g: "get_packet (255 # ?data) = Some ([165, 31, 16, 32, 134, 2, feature, ?b], [])"
    unfolding get_packet_def r by simp
  show ?thesis
    apply (rule exI[of _ ?data])
    using d r g by (simp add: p)
qed

theorem command_round_trip_witness:
  "get_feature_name Feature_POOL = Inr ''pool''
   \<and> command_data Feature_POOL (PStr ''on'')
       = Inr [0, 255, 165, 31, 16, 32, 134, 2, 6, 1, 1, 131]
   \<and> get_packet [255, 0, 255, 165, 31, 16, 32, 134, 2, 6, 1, 1, 131]
       = Some ([165, 31, 16, 32, 134, 2, 6, 1], [])"
proof -
  have d: "command_data Feature_POOL (PStr ''on'')
           = Inr [0, 255, 165, 31, 16, 32, 134, 2, 6, 1, 1, 131]"
    by (simp add: command_data_def command_packet_POOL_on array_B_def)
  have p: "take 8 (command_packet Feature_POOL (PStr ''on'')) = [165, 31, 16, 32, 134, 2, 6, 1]"
    by (simp add: command_packet_POOL_on)
  from command_round_trip[OF get_feature_name_POOL, of "PStr ''on''"] d p
  show ?thesis by (simp add: get_feature_name_POOL)
qed

section \<open>The status decoder\<close>

subsection \<open>The binary rendering of a byte\<close>

lemma bin_str_length: "n < 2 ^ k \<Longrightarrow> 0 < k \<Longrightarrow> length (bin_str n) \<le> k"
proof (induction n arbitrary: k rule: bin_str.induct)
  case (1 n)
  show ?case
  proof (cases "n < 2")
    case True
    then show ?thesis using "1.prems" by (simp add: bin_str.simps[of n])
  next
    case False
    then obtain k' where k: "k = Suc k'" "0 < k'" using "1.prems"
      by (cases k; cases "k - 1") auto
    have "n div 2 < 2 ^ k'" using "1.prems" k by auto
    from "1.IH"[OF False this k(2)] show ?thesis
      using False k by (simp add: bin_str.simps[of n])
  qed
qed

lemma digit01: "''01'' ! (n mod 2) = bit_char (odd n)"
  by (cases "even n") (auto simp: bit_char_def odd_iff_mod_2_eq_one)

lemma zero_pad_nth:
  "n < 2 ^ k \<Longrightarrow> 0 < k \<Longrightarrow> i < k \<Longrightarrow> zero_pad k (bin_str n) ! i = bit_char (bit n (k - 1 - i))"
proof (induction n arbitrary: k i rule: bin_str.induct)
  case (1 n)
  show ?case
  proof (cases "n < 2")
    case True
    then have b: "bin_str n = [bit_char (odd n)]"
      using digit01[of n] by (simp add: bin_str.simps[of n])
    show ?thesis
    proof (cases "i = k - 1")
      case True
      then show ?thesis using "1.prems" by (simp add: b zero_pad_def nth_append bit_0)
    next
      case False
      then have i: "i < k - 1" using "1.prems" by simp
      then obtain m where m: "k - 1 - i = Suc m" by (cases "k - 1 - i") auto
      have "\<not> bit n (Suc m)" using True by (simp add: bit_Suc)
      then have "\<not> bit n (k - 1 - i)" unfolding m .
      then show ?thesis using i by (simp add: b zero_pad_def nth_append bit_char_def)
    qed
  next
    case False
    then obtain k' where k: "k = Suc k'" "0 < k'" using "1.prems"
      by (cases k; cases "k - 1") auto
    have d: "n div 2 < 2 ^ k'" using "1.prems" k by auto
    have b: "bin_str n = bin_str (n div 2) @ [bit_char (odd n)]"
      using False digit01[of n] by (simp add: bin_str.simps[of n])
    have l: "length (bin_str (n div 2)) \<le> k'" by (rule bin_str_length[OF d k(2)])
    have z: "zero_pad (Suc k') (bin_str n) = zero_pad k' (bin_str (n div 2)) @ [bit_char (odd n)]"
      using l by (simp add: b zero_pad_def Suc_diff_le)
    have lz: "length (zero_pad k' (bin_str (n div 2))) = k'" using l by (simp add: zero_pad_def)
    show ?thesis
    proof (cases "i = k'")
      case True
      then show ?thesis by (simp add: z lz nth_append k bit_0)
    next
      case False
      then have i: "i < k'" using "1.prems" k by simp
      then obtain m where m: "k' - i = Suc m" by (cases "k' - i") auto
      then have m': "k' - Suc i = m" by simp
      from "1.IH"[OF \<open>\<not> n < 2\<close> d k(2) i]
      show ?thesis using i by (simp add: z lz nth_append k m m' bit_Suc)
    qed
  qed
qed

lemma zero_pad_length: "n < 2 ^ k \<Longrightarrow> 0 < k \<Longrightarrow> length (zero_pad k (bin_str n)) = k"
  using bin_str_length[of n k] by (simp add: zero_pad_def)

lemma state_of_bit_format:
  assumes "0 \<le> x" and "x < 256" and "i + m = 7" and "j = Suc i"
  shows "state_of_bit (format_08b x) i j = PStr (if bit x m then ''on'' else ''off'')"
proof -
  have i: "i < 8" and m: "m = 7 - i" using assms(3) by auto
  have n: "nat x < 2 ^ 8" using assms by simp
  have l: "length (format_08b x) = 8"
    using zero_pad_length[OF n] by (simp add: format_08b_def)
  have c: "format_08b x ! i = bit_char (bit (nat x) (7 - i))"
    using zero_pad_nth[OF n _ i] by (simp add: format_08b_def)
  have b: "bit (nat x) (7 - i) = bit x m" using assms(1) by (simp add: bit_nat_iff m)
  have s: "slice i j (format_08b x) = [format_08b x ! i]"
    using l i assms(4)
    by (simp add: slice_def take_Suc_conv_app_nth[of 0, simplified] hd_drop_conv_nth take_Suc)
  show ?thesis
    by (simp add: state_of_bit_def s c b int_of_bit_def bit_char_def state_def)
qed

subsection \<open>The packet a pass ends with\<close>

lemma get_packet_shape:
  assumes "get_packet s = Some (packet, rest)" and "packet \<noteq> []"
  shows "length packet = 6 + nat (packet ! 5) \<and> (\<forall>x \<in> set packet. 0 \<le> x \<and> x < 256)"
  using assms
  by (auto simp: get_packet_def Let_def split: option.splits prod.splits if_splits
           dest!: read_frame_packet)

lemma wait_packet_shape:
  "wait_packet controller st s = Some (packet, src, dst, st', rest) \<Longrightarrow>
   length packet = 6 + nat (packet ! 5) \<and> (\<forall>x \<in> set packet. 0 \<le> x \<and> x < 256)
   \<and> src = controller_of (packet ! 3) \<and> dst = controller_of (packet ! 2)"
proof (induction controller st s rule: wait_packet.induct)
  case (1 controller st s)
  from "1.prems" obtain p r where g: "get_packet s = Some (p, r)"
    by (subst (asm) wait_packet.simps) (auto split: option.splits)
  show ?case
  proof (cases "length p > 3")
    case False
    with g "1.prems" have "wait_packet controller st r = Some (packet, src, dst, st', rest)"
      by (subst (asm) wait_packet.simps) simp
    from "1.IH"(2)[OF g refl False this] show ?thesis .
  next
    case True
    let ?st = "if controller_of (p ! 3) = PStr ''Pump1'' \<and> p ! 4 = 0x07 \<and> length p = 21
               then st(''pump_watts'' \<mapsto> PInt (push_bit 8 (p ! 9) + p ! 10),
                       ''pump_rpm'' \<mapsto> PInt (push_bit 8 (p ! 11) + p ! 12))
               else st"
    show ?thesis
    proof (cases "controller = None \<or> p ! 2 = Ctrl_BROADCAST")
      case fin: True
      with g True "1.prems" have "packet = p" "src = controller_of (p ! 3)"
        "dst = controller_of (p ! 2)"
        by (subst (asm) wait_packet.simps; simp add: Let_def)+
      moreover from True have "p \<noteq> []" by auto
      ultimately show ?thesis using get_packet_shape[OF g] by simp
    next
      case nfin: False
      with g True "1.prems"
      have w: "wait_packet controller ?st r = Some (packet, src, dst, st', rest)"
        by (subst (asm) wait_packet.simps) (simp add: Let_def)
      from "1.IH"(1)[OF g refl True refl refl refl nfin w] show ?thesis .
    qed
  qed
qed

lemma decode_status_cases:
  assumes "length packet = 6 + nat (packet ! 5)" and "packet ! 5 > 8"
  shows "decode_status now src dst packet self =
     (let E = equipment_status now src dst packet (status self) in
      if length packet < 20 then (None, self\<lparr>status := E, ready := True\<rparr>)
      else if length packet = 20 then (Some IndexError, self\<lparr>status := E\<rparr>)
      else if length packet < 24 then
        (None, self\<lparr>status := E(''water_temp'' \<mapsto> PInt (packet ! 20)), ready := True\<rparr>)
      else if length packet = 24 then
        (Some IndexError, self\<lparr>status := E(''water_temp'' \<mapsto> PInt (packet ! 20))\<rparr>)
      else (None, self\<lparr>status := E(''water_temp'' \<mapsto> PInt (packet ! 20),
                                        ''air_temp'' \<mapsto> PInt (packet ! 24)),
                         ready := True\<rparr>))"
proof -
  have l: "14 < length packet" using assms by simp
  show ?thesis
    using l assms(2)
    by (simp add: decode_status_def Let_def Equip1_def Equip2_def WaterTemp_def AirTemp_def)
qed

lemma decode_status_short:
  assumes "length packet = 6 + nat (packet ! 5)" and "\<not> packet ! 5 > 8"
  shows "decode_status now src dst packet self = (None, self\<lparr>ready := True\<rparr>)"
  using assms by (simp add: decode_status_def Let_def)

lemma equipment_status_lookup:
  "equipment_status now src dst packet st ''spillway'' = Some (state_of_bit (format_08b (packet ! 8)) 0 1)"
  "equipment_status now src dst packet st ''water_feature'' = Some (state_of_bit (format_08b (packet ! 8)) 1 2)"
  "equipment_status now src dst packet st ''pool'' = Some (state_of_bit (format_08b (packet ! 8)) 2 3)"
  "equipment_status now src dst packet st ''pool_light'' = Some (state_of_bit (format_08b (packet ! 8)) 3 4)"
  "equipment_status now src dst packet st ''spa_light'' = Some (state_of_bit (format_08b (packet ! 8)) 4 5)"
  "equipment_status now src dst packet st ''air_blower'' = Some (state_of_bit (format_08b (packet ! 8)) 5 6)"
  "equipment_status now src dst packet st ''cleaner'' = Some (state_of_bit (format_08b (packet ! 8)) 6 7)"
  "equipment_status now src dst packet st ''spa'' = Some (state_of_bit (format_08b (packet ! 8)) 7 8)"
  "equipment_status now src dst packet st ''aux'' = Some (state_of_bit (format_08b (packet ! 9)) 7 8)"
  "equipment_status now src dst packet st ''last_update'' = Some (PDateTime now)"
  "equipment_status now src dst packet st ''source'' = Some src"
  "equipment_status now src dst packet st ''destination'' = Some dst"
  "equipment_status now src dst packet st ''time''
     = Some (PStr (format_02d (packet ! 6) @ '':'' @ format_02d (packet ! 7)))"
  unfolding equipment_status_def Let_def Equip1_def Equip2_def by simp_all

lemma state_of_bit_byte:
  assumes "0 \<le> x" and "x < 256"
  shows "state_of_bit (format_08b x) 0 1 = PStr (if bit x 7 then ''on'' else ''off'')"
    and "state_of_bit (format_08b x) 1 2 = PStr (if bit x 6 then ''on'' else ''off'')"
    and "state_of_bit (format_08b x) 2 3 = PStr (if bit x 5 then ''on'' else ''off'')"
    and "state_of_bit (format_08b x) 3 4 = PStr (if bit x 4 then ''on'' else ''off'')"
    and "state_of_bit (format_08b x) 4 5 = PStr (if bit x 3 then ''on'' else ''off'')"
    and "state_of_bit (format_08b x) 5 6 = PStr (if bit x 2 then ''on'' else ''off'')"
    and "state_of_bit (format_08b x) 6 7 = PStr (if bit x 1 then ''on'' else ''off'')"
    and "state_of_bit (format_08b x) 7 8 = PStr (if bit x 0 then ''on'' else ''off'')"
  by (rule state_of_bit_format[OF assms]; simp)+

lemma wait_packet_dropped:
  "get_packet s = Some ([], rest) \<Longrightarrow> wait_packet controller st s = wait_packet controller st rest"
  by (subst wait_packet.simps) simp

lemma read_status_unfold:
  assumes "wait_packet controller (status self) (rx self) = Some (packet, src, dst, st, rest)"
  shows "read_status controller now self
         = Some (decode_status now src dst packet (self\<lparr>status := st, rx := rest\<rparr>))"
  using assms by (simp add: read_status_def)

lemma equipment_status_features:
  assumes "0 \<le> packet ! 8" "packet ! 8 < 256" "0 \<le> packet ! 9" "packet ! 9 < 256"
  shows "equipment_status now src dst packet st ''spillway''
           = Some (PStr (if bit (packet ! 8) 7 then ''on'' else ''off''))"
    and "equipment_status now src dst packet st ''water_feature''
           = Some (PStr (if bit (packet ! 8) 6 then ''on'' else ''off''))"
    and "equipment_status now src dst packet st ''pool''
           = Some (PStr (if bit (packet ! 8) 5 then ''on'' else ''off''))"
    and "equipment_status now src dst packet st ''pool_light''
           = Some (PStr (if bit (packet ! 8) 4 then ''on'' else ''off''))"
    and "equipment_status now src dst packet st ''spa_light''
           = Some (PStr (if bit (packet ! 8) 3 then ''on'' else ''off''))"
    and "equipment_status now src dst packet st ''air_blower''
           = Some (PStr (if bit (packet ! 8) 2 then ''on'' else ''off''))"
    and "equipment_status now src dst packet st ''cleaner''
           = Some (PStr (if bit (packet ! 8) 1 then ''on'' else ''off''))"
    and "equipment_status now src dst packet st ''spa''
           = Some (PStr (if bit (packet ! 8) 0 then ''on'' else ''off''))"
    and "equipment_status now src dst packet st ''aux''
           = Some (PStr (if bit (packet ! 9) 0 then ''on'' else ''off''))"
  by (simp_all only: equipment_status_lookup state_of_bit_byte[OF assms(1,2)]
        state_of_bit_byte[OF assms(3,4)])


text \<open>
  C5: for every frame that ends the loop of \<^verbatim>\<open>read_status\<close> (a frame \<^verbatim>\<open>get_packet\<close> has
  validated) with declared payload length greater than 8, the dictionary after the pass
  maps the features to the bits of the two equipment bytes: character 0 of the rendering
  of \<^verbatim>\<open>packet[8]\<close>, its most significant bit (bit 7 of the value), is spillway, character 1
  water_feature, 2 pool, 3 pool_light, 4 spa_light, 5 air_blower, 6 cleaner, 7 spa, and
  character 7 of the rendering of \<^verbatim>\<open>packet[9]\<close> is aux.
\<close>

theorem equipment_bits_decoded:
  assumes "wait_packet controller (status self) (rx self) = Some (packet, src, dst, st, rest)"
      and "packet ! 5 > 8"
  shows "\<exists>err self'. read_status controller now self = Some (err, self')
       \<and> status self' ''spillway'' = Some (PStr (if bit (packet ! 8) 7 then ''on'' else ''off''))
       \<and> status self' ''water_feature'' = Some (PStr (if bit (packet ! 8) 6 then ''on'' else ''off''))
       \<and> status self' ''pool'' = Some (PStr (if bit (packet ! 8) 5 then ''on'' else ''off''))
       \<and> status self' ''pool_light'' = Some (PStr (if bit (packet ! 8) 4 then ''on'' else ''off''))
       \<and> status self' ''spa_light'' = Some (PStr (if bit (packet ! 8) 3 then ''on'' else ''off''))
       \<and> status self' ''air_blower'' = Some (PStr (if bit (packet ! 8) 2 then ''on'' else ''off''))
       \<and> status self' ''cleaner'' = Some (PStr (if bit (packet ! 8) 1 then ''on'' else ''off''))
       \<and> status self' ''spa'' = Some (PStr (if bit (packet ! 8) 0 then ''on'' else ''off''))
       \<and> status self' ''aux'' = Some (PStr (if bit (packet ! 9) 0 then ''on'' else ''off''))"
proof -
  from wait_packet_shape[OF assms(1)]
  have len: "length packet = 6 + nat (packet ! 5)"
    and rng: "\<forall>x \<in> set packet. 0 \<le> x \<and> x < 256" by auto
  have l: "14 < length packet" using len assms(2) by simp
  then have "packet ! 8 \<in> set packet" "packet ! 9 \<in> set packet" by simp_all
  with rng have b8: "0 \<le> packet ! 8" "packet ! 8 < 256"
    and b9: "0 \<le> packet ! 9" "packet ! 9 < 256" by auto
  let ?merged = "self\<lparr>status := st, rx := rest\<rparr>"
  let ?E = "equipment_status now src dst packet st"
  obtain err self' where d: "decode_status now src dst packet ?merged = (err, self')"
    by (cases "decode_status now src dst packet ?merged")
  have r: "read_status controller now self = Some (err, self')"
    using read_status_unfold[OF assms(1)] d by simp
  have s: "status self' = ?E \<or> status self' = ?E(''water_temp'' \<mapsto> PInt (packet ! 20))
         \<or> status self' = ?E(''water_temp'' \<mapsto> PInt (packet ! 20),
                              ''air_temp'' \<mapsto> PInt (packet ! 24))"
    using d decode_status_cases[OF len assms(2), of now src dst ?merged]
    by (auto simp: Let_def split: if_splits)
  have k: "\<And>k. k \<noteq> ''water_temp'' \<Longrightarrow> k \<noteq> ''air_temp'' \<Longrightarrow> status self' k = ?E k"
    using s by auto
  show ?thesis
    apply (rule exI[of _ err], rule exI[of _ self'])
    by (simp add: r k equipment_status_features[OF b8 b9])
qed

text \<open>
  C8: when the checksum recomputed for a frame differs from the transmitted one,
  \<^verbatim>\<open>get_packet\<close> returns the empty list, and the pass of \<^verbatim>\<open>read_status\<close> does exactly what it
  does on the stream behind that frame, from the same dictionary: the frame changes
  nothing, and the loop goes on to the next frame.
\<close>

theorem bad_checksum_frame_dropped:
  assumes "read_frame (rx self) = Some (packet, checksum, rest)"
      and "sum_list packet \<noteq> checksum"
  shows "get_packet (rx self) = Some ([], rest)
       \<and> wait_packet controller (status self) (rx self)
           = wait_packet controller (status self) rest
       \<and> read_status controller now self = read_status controller now (self\<lparr>rx := rest\<rparr>)"
proof -
  have g: "get_packet (rx self) = Some ([], rest)"
    using assms by (simp add: get_packet_def)
  have w: "wait_packet controller (status self) (rx self)
           = wait_packet controller (status self) rest"
    by (rule wait_packet_dropped[OF g])
  show ?thesis using g w by (auto simp: read_status_def split: option.splits)
qed

subsection \<open>Passes over the example frames\<close>

lemma get_packet_frame_status:
  "get_packet frame_status = Some ([165, 1, 15, 16, 2, 9, 10, 30, 161, 0, 0, 0, 0, 0, 0], [])"
  by (simp add: frame_status_def get_packet_def read_frame_def port_read_def preamble_def)

lemma wait_packet_broadcast:
  assumes "get_packet s = Some (p, rest)" and "length p > 3" and "p ! 2 = Ctrl_BROADCAST"
      and "controller_of (p ! 3) \<noteq> PStr ''Pump1''"
  shows "wait_packet controller st s
         = Some (p, controller_of (p ! 3), controller_of (p ! 2), st, rest)"
  using assms by (subst wait_packet.simps) (simp add: Let_def)

lemma controller_of_values:
  "controller_of 15 = PStr ''Broadcast''" "controller_of 16 = PStr ''Main''"
  by (simp_all add: controller_of_def Controller_def Ctrl_MAIN_def Ctrl_REMOTE_def
        Ctrl_PUMP1_def Ctrl_BROADCAST_def)

lemma wait_packet_frame_status:
  "wait_packet controller st frame_status
   = Some ([165, 1, 15, 16, 2, 9, 10, 30, 161, 0, 0, 0, 0, 0, 0],
           PStr ''Main'', PStr ''Broadcast'', st, [])"
  using wait_packet_broadcast[OF get_packet_frame_status, of controller st]
  by (simp add: controller_of_values Ctrl_BROADCAST_def)

lemma get_packet_frame_33: "get_packet frame_33 = Some ([165, 1, 15, 16, 2, 0], [])"
  by (simp add: read_frame_33 get_packet_def)

lemma wait_packet_frame_33:
  "wait_packet controller st frame_33
   = Some ([165, 1, 15, 16, 2, 0], PStr ''Main'', PStr ''Broadcast'', st, [])"
  using wait_packet_broadcast[OF get_packet_frame_33, of controller st]
  by (simp add: controller_of_values Ctrl_BROADCAST_def)

lemma get_packet_frame_len20:
  "get_packet frame_len20
   = Some ([165, 1, 15, 16, 2, 14, 10, 30, 161, 0, 0, 0, 0, 0, 0, 0, 0, 0, 0, 0], [])"
  by (simp add: frame_len20_def get_packet_def read_frame_def port_read_def preamble_def)

lemma wait_packet_frame_len20:
  "wait_packet controller st frame_len20
   = Some ([165, 1, 15, 16, 2, 14, 10, 30, 161, 0, 0, 0, 0, 0, 0, 0, 0, 0, 0, 0],
           PStr ''Main'', PStr ''Broadcast'', st, [])"
  using wait_packet_broadcast[OF get_packet_frame_len20, of controller st]
  by (simp add: controller_of_values Ctrl_BROADCAST_def)

lemma read_status_frame_status:
  "read_status controller now (self_off frame_status)
   = Some (None,
       \<lparr>status = equipment_status now (PStr ''Main'') (PStr ''Broadcast'')
                   [165, 1, 15, 16, 2, 9, 10, 30, 161, 0, 0, 0, 0, 0, 0]
                   [''pool'' \<mapsto> PStr ''off''],
        ready = True, rx = [], tx = []\<rparr>)"
proof -
  have w: "wait_packet controller (status (self_off frame_status)) (rx (self_off frame_status))
           = Some ([165, 1, 15, 16, 2, 9, 10, 30, 161, 0, 0, 0, 0, 0, 0],
                   PStr ''Main'', PStr ''Broadcast'', [''pool'' \<mapsto> PStr ''off''], [])"
    by (simp add: self_off_def wait_packet_frame_status)
  show ?thesis
    unfolding read_status_unfold[OF w]
    by (subst decode_status_cases) (simp_all add: self_off_def)
qed

lemma read_frame_bad_then_status:
  "read_frame (frame_bad @ frame_status)
   = Some ([165, 1, 15, 16, 2, 9, 10, 30, 161, 0, 0, 0, 0, 0, 0], 408, frame_status)"
  by (simp add: frame_bad_def read_frame_def port_read_def preamble_def)

text \<open>
  The witness of C5: the first equipment byte is 161, binary 10100001, and the second is 0:
  spillway, pool and spa are on, every other feature is off.
\<close>

theorem equipment_bits_decoded_witness:
  "\<exists>err self'. read_status (Some Ctrl_BROADCAST) 77 (self_off frame_status) = Some (err, self')
     \<and> status self' ''spillway'' = Some (PStr ''on'')
     \<and> status self' ''water_feature'' = Some (PStr ''off'')
     \<and> status self' ''pool'' = Some (PStr ''on'')
     \<and> status self' ''pool_light'' = Some (PStr ''off'')
     \<and> status self' ''spa_light'' = Some (PStr ''off'')
     \<and> status self' ''air_blower'' = Some (PStr ''off'')
     \<and> status self' ''cleaner'' = Some (PStr ''off'')
     \<and> status self' ''spa'' = Some (PStr ''on'')
     \<and> status self' ''aux'' = Some (PStr ''off'')"
proof -
  have w: "wait_packet (Some Ctrl_BROADCAST) (status (self_off frame_status))
             (rx (self_off frame_status))
           = Some ([165, 1, 15, 16, 2, 9, 10, 30, 161, 0, 0, 0, 0, 0, 0],
                   PStr ''Main'', PStr ''Broadcast'', status (self_off frame_status), [])"
    by (simp add: self_off_def wait_packet_frame_status)
  have b: "bit (161::int) 7" "\<not> bit (161::int) 6" "bit (161::int) 5" "\<not> bit (161::int) 4"
    "\<not> bit (161::int) 3" "\<not> bit (161::int) 2" "\<not> bit (161::int) 1" "bit (161::int) 0"
    "\<not> bit (0::int) 0"
    by (simp_all add: bit_iff_odd)
  from equipment_bits_decoded[OF w, of 77] b show ?thesis by simp
qed

text \<open>
  The witness of C8: \<open>frame_bad\<close> is dropped, and the pass decodes the frame behind it.
\<close>

theorem bad_checksum_frame_dropped_witness:
  "read_frame (rx (self_off (frame_bad @ frame_status)))
     = Some ([165, 1, 15, 16, 2, 9, 10, 30, 161, 0, 0, 0, 0, 0, 0], 408, frame_status)
   \<and> sum_list [165, 1, 15, 16, 2, 9, 10, 30, 161, 0, 0, 0, 0, 0, 0] \<noteq> (408 :: int)
   \<and> get_packet (rx (self_off (frame_bad @ frame_status))) = Some ([], frame_status)
   \<and> (\<exists>self'. read_status (Some Ctrl_BROADCAST) 77 (self_off (frame_bad @ frame_status))
                  = Some (None, self')
        \<and> status self' ''pool'' = Some (PStr ''on'')
        \<and> status self' ''last_update'' = Some (PDateTime 77)
        \<and> ready self' \<and> rx self' = [])"
proof -
  have r: "read_frame (rx (self_off (frame_bad @ frame_status)))
           = Some ([165, 1, 15, 16, 2, 9, 10, 30, 161, 0, 0, 0, 0, 0, 0], 408, frame_status)"
    by (simp add: self_off_def read_frame_bad_then_status)
  have n: "sum_list [165, 1, 15, 16, 2, 9, 10, 30, 161, 0, 0, 0, 0, 0, 0] \<noteq> (408 :: int)"
    by simp
  have e: "(self_off (frame_bad @ frame_status))\<lparr>rx := frame_status\<rparr> = self_off frame_status"
    by (simp add: self_off_def)
  have p: "equipment_status 77 (PStr ''Main'') (PStr ''Broadcast'')
             [165, 1, 15, 16, 2, 9, 10, 30, 161, 0, 0, 0, 0, 0, 0]
             [''pool'' \<mapsto> PStr ''off''] ''pool'' = Some (PStr ''on'')"
    by (subst equipment_status_features) (simp_all add: bit_iff_odd)
  from bad_checksum_frame_dropped[OF r n, of "Some Ctrl_BROADCAST" 77]
  show ?thesis
    using r n p by (simp add: e read_status_frame_status equipment_status_lookup)
qed

section \<open>The temperatures\<close>

text \<open>
  C4 fails on the code. Lines 213 and 215 test \<^verbatim>\<open>len(packet) >= 20\<close> and
  \<^verbatim>\<open>len(packet) >= 24\<close> and then read \<^verbatim>\<open>packet[20]\<close> and \<^verbatim>\<open>packet[24]\<close>: a validated frame of
  exactly twenty elements (fourteen payload bytes) raises \<^verbatim>\<open>IndexError\<close>. The equipment
  entries are already written, \<^verbatim>\<open>ready\<close> is not set, and the pass does not return.
\<close>

theorem water_temp_index_error:
  "read_status (Some Ctrl_BROADCAST) 77 (self_off frame_len20)
   = Some (Some IndexError,
       \<lparr>status = equipment_status 77 (PStr ''Main'') (PStr ''Broadcast'')
                   [165, 1, 15, 16, 2, 14, 10, 30, 161, 0, 0, 0, 0, 0, 0, 0, 0, 0, 0, 0]
                   [''pool'' \<mapsto> PStr ''off''],
        ready = False, rx = [], tx = []\<rparr>)"
proof -
  have w: "wait_packet (Some Ctrl_BROADCAST) (status (self_off frame_len20))
             (rx (self_off frame_len20))
           = Some ([165, 1, 15, 16, 2, 14, 10, 30, 161, 0, 0, 0, 0, 0, 0, 0, 0, 0, 0, 0],
                   PStr ''Main'', PStr ''Broadcast'', [''pool'' \<mapsto> PStr ''off''], [])"
    by (simp add: self_off_def wait_packet_frame_len20)
  show ?thesis
    unfolding read_status_unfold[OF w]
    by (subst decode_status_cases) (simp_all add: self_off_def)
qed

text \<open>
  In general, the decoding of a validated frame with more than eight payload bytes raises
  exactly when the packet has twenty or twenty-four elements.
\<close>

lemma decode_status_error_iff:
  assumes "length packet = 6 + nat (packet ! 5)" and "packet ! 5 > 8"
  shows "fst (decode_status now src dst packet self) = None
         \<longleftrightarrow> length packet \<noteq> 20 \<and> length packet \<noteq> 24"
  by (simp add: decode_status_cases[OF assms] Let_def)

section \<open>The \<^verbatim>\<open>ready\<close> flag\<close>

lemma read_status_frame_33:
  "read_status (Some Ctrl_BROADCAST) now (self_off frame_33)
   = Some (None, \<lparr>status = [''pool'' \<mapsto> PStr ''off''], ready = True, rx = [], tx = []\<rparr>)"
proof -
  have w: "wait_packet (Some Ctrl_BROADCAST) (status (self_off frame_33)) (rx (self_off frame_33))
           = Some ([165, 1, 15, 16, 2, 0], PStr ''Main'', PStr ''Broadcast'',
                   [''pool'' \<mapsto> PStr ''off''], [])"
    by (simp add: self_off_def wait_packet_frame_33)
  show ?thesis
    unfolding read_status_unfold[OF w]
    by (subst decode_status_short) (simp_all add: self_off_def)
qed

text \<open>
  C7, as stated, fails. The pass over \<open>frame_33\<close>, a validated broadcast frame with an empty
  payload, starts with the flag cleared and ends with the flag set, and the dictionary
  after the pass is the dictionary before it: the pass has set \<^verbatim>\<open>ready\<close> and merged nothing.
\<close>

theorem ready_without_update_counterexample:
  "status (self_off frame_33) = [''pool'' \<mapsto> PStr ''off'']
   \<and> ready (self_off frame_33) = False
   \<and> read_status (Some Ctrl_BROADCAST) 77 (self_off frame_33)
       = Some (None, \<lparr>status = [''pool'' \<mapsto> PStr ''off''], ready = True, rx = [], tx = []\<rparr>)"
  by (simp add: read_status_frame_33) (simp add: self_off_def)

text \<open>
  C7, amended: every pass of the polling thread that ends with a frame of more than eight
  declared payload bytes has written the newly decoded entries (among them
  \<^verbatim>\<open>last_update\<close>, the reading of the clock in that pass) into the dictionary when it sets
  \<^verbatim>\<open>ready\<close>; when the pass raises instead (twenty or twenty-four packet elements), the
  entries are written and the flag is left as it was. A pass that ends with a frame of
  eight declared payload bytes or fewer sets \<^verbatim>\<open>ready\<close> and leaves the dictionary as the
  loop of lines 170 to 194 left it. Nothing is promised to a reader: the flag and the
  dictionary are written without a lock (section \<open>The wait of get_status\<close> below).
\<close>

theorem ready_after_update:
  assumes "wait_packet (Some Ctrl_BROADCAST) (status self) (rx self)
           = Some (packet, src, dst, st, rest)"
  shows "\<exists>err self'. read_status (Some Ctrl_BROADCAST) now self = Some (err, self')
       \<and> (packet ! 5 > 8 \<longrightarrow>
            (status self' = equipment_status now src dst packet st
             \<or> status self' = (equipment_status now src dst packet st)
                                 (''water_temp'' \<mapsto> PInt (packet ! 20))
             \<or> status self' = (equipment_status now src dst packet st)
                                 (''water_temp'' \<mapsto> PInt (packet ! 20),
                                  ''air_temp'' \<mapsto> PInt (packet ! 24)))
            \<and> status self' ''last_update'' = Some (PDateTime now)
            \<and> (err = None \<longleftrightarrow> length packet \<noteq> 20 \<and> length packet \<noteq> 24)
            \<and> (err = None \<longrightarrow> ready self')
            \<and> (err \<noteq> None \<longrightarrow> ready self' = ready self))
       \<and> (\<not> packet ! 5 > 8 \<longrightarrow>
            err = None \<and> self' = self\<lparr>status := st, ready := True, rx := rest\<rparr>)"
proof -
  from wait_packet_shape[OF assms(1)]
  have len: "length packet = 6 + nat (packet ! 5)" by simp
  let ?merged = "self\<lparr>status := st, rx := rest\<rparr>"
  let ?E = "equipment_status now src dst packet st"
  obtain err self' where d: "decode_status now src dst packet ?merged = (err, self')"
    by (cases "decode_status now src dst packet ?merged")
  have r: "read_status (Some Ctrl_BROADCAST) now self = Some (err, self')"
    using read_status_unfold[OF assms(1)] d by simp
  have long: "(status self' = ?E \<or> status self' = ?E(''water_temp'' \<mapsto> PInt (packet ! 20))
         \<or> status self' = ?E(''water_temp'' \<mapsto> PInt (packet ! 20),
                              ''air_temp'' \<mapsto> PInt (packet ! 24)))
       \<and> status self' ''last_update'' = Some (PDateTime now)
       \<and> (err = None \<longleftrightarrow> length packet \<noteq> 20 \<and> length packet \<noteq> 24)
       \<and> (err = None \<longrightarrow> ready self')
       \<and> (err \<noteq> None \<longrightarrow> ready self' = ready self)" if gt: "packet ! 5 > 8"
  proof -
    note c = decode_status_cases[OF len gt, of now src dst ?merged]
    have s: "status self' = ?E \<or> status self' = ?E(''water_temp'' \<mapsto> PInt (packet ! 20))
           \<or> status self' = ?E(''water_temp'' \<mapsto> PInt (packet ! 20),
                                ''air_temp'' \<mapsto> PInt (packet ! 24))"
      using d c by (auto simp: Let_def split: if_splits)
    have u: "status self' ''last_update'' = Some (PDateTime now)"
      using s by (auto simp: equipment_status_lookup)
    have e: "err = None \<longleftrightarrow> length packet \<noteq> 20 \<and> length packet \<noteq> 24"
      using d c by (auto simp: Let_def split: if_splits)
    have g: "err = None \<longrightarrow> ready self'"
      using d c by (auto simp: Let_def split: if_splits)
    have b: "err \<noteq> None \<longrightarrow> ready self' = ready self"
      using d c by (auto simp: Let_def split: if_splits)
    show ?thesis using s u e g b by blast
  qed
  have short: "err = None \<and> self' = self\<lparr>status := st, ready := True, rx := rest\<rparr>"
    if le: "\<not> packet ! 5 > 8"
    using d decode_status_short[OF len le, of now src dst ?merged] by auto
  show ?thesis
    apply (rule exI[of _ err], rule exI[of _ self'])
    using r long short by blast
qed

theorem ready_after_update_witness:
  "wait_packet (Some Ctrl_BROADCAST) (status (self_off frame_status))
       (rx (self_off frame_status))
     = Some ([165, 1, 15, 16, 2, 9, 10, 30, 161, 0, 0, 0, 0, 0, 0],
             PStr ''Main'', PStr ''Broadcast'', [''pool'' \<mapsto> PStr ''off''], [])
   \<and> (\<exists>self'. read_status (Some Ctrl_BROADCAST) 77 (self_off frame_status) = Some (None, self')
          \<and> ready self'
          \<and> status self' ''last_update'' = Some (PDateTime 77)
          \<and> status self' = equipment_status 77 (PStr ''Main'') (PStr ''Broadcast'')
                              [165, 1, 15, 16, 2, 9, 10, 30, 161, 0, 0, 0, 0, 0, 0]
                              [''pool'' \<mapsto> PStr ''off''])
   \<and> wait_packet (Some Ctrl_BROADCAST) (status (self_off frame_33)) (rx (self_off frame_33))
     = Some ([165, 1, 15, 16, 2, 0], PStr ''Main'', PStr ''Broadcast'',
             [''pool'' \<mapsto> PStr ''off''], [])
   \<and> read_status (Some Ctrl_BROADCAST) 77 (self_off frame_33)
     = Some (None, (self_off frame_33)
                     \<lparr>status := [''pool'' \<mapsto> PStr ''off''], ready := True, rx := []\<rparr>)"
proof -
  have w: "wait_packet (Some Ctrl_BROADCAST) (status (self_off frame_status))
             (rx (self_off frame_status))
           = Some ([165, 1, 15, 16, 2, 9, 10, 30, 161, 0, 0, 0, 0, 0, 0],
                   PStr ''Main'', PStr ''Broadcast'', [''pool'' \<mapsto> PStr ''off''], [])"
    by (simp add: self_off_def wait_packet_frame_status)
  have v: "wait_packet (Some Ctrl_BROADCAST) (status (self_off frame_33)) (rx (self_off frame_33))
           = Some ([165, 1, 15, 16, 2, 0], PStr ''Main'', PStr ''Broadcast'',
                   [''pool'' \<mapsto> PStr ''off''], [])"
    by (simp add: self_off_def wait_packet_frame_33)
  from ready_after_update[OF w, of 77]
  have a: "\<exists>self'. read_status (Some Ctrl_BROADCAST) 77 (self_off frame_status) = Some (None, self')
          \<and> ready self'
          \<and> status self' ''last_update'' = Some (PDateTime 77)
          \<and> status self' = equipment_status 77 (PStr ''Main'') (PStr ''Broadcast'')
                              [165, 1, 15, 16, 2, 9, 10, 30, 161, 0, 0, 0, 0, 0, 0]
                              [''pool'' \<mapsto> PStr ''off'']"
    by (auto simp: read_status_frame_status)
  from ready_after_update[OF v, of 77]
  have b: "read_status (Some Ctrl_BROADCAST) 77 (self_off frame_33)
     = Some (None, (self_off frame_33)
                     \<lparr>status := [''pool'' \<mapsto> PStr ''off''], ready := True, rx := []\<rparr>)"
    by auto
  show ?thesis using w v a b by blast
qed

section \<open>\<^verbatim>\<open>send_command\<close>: confirmation, retries, timeout\<close>

lemma retry_loop_rounds:
  assumes "k \<le> n"
      and "rounds gs data k self1 = Some self2"
      and "\<forall>i<k. \<exists>s u. rounds gs data i self1 = Some s \<and> status s name = Some u \<and> \<not> py_eq u st"
      and "status self2 name = Some v" and "py_eq v st"
  shows "retry_loop gs name st data n self1 = Some (Inr (n - k), self2)"
  using assms
proof (induction k arbitrary: n self1)
  case 0
  then show ?case by (cases n) simp_all
next
  case (Suc k)
  then obtain m where n: "n = Suc m" and km: "k \<le> m" by (cases n) auto
  from Suc.prems(3) have "\<exists>s u. rounds gs data 0 self1 = Some s \<and> status s name = Some u \<and> \<not> py_eq u st"
    by blast
  then obtain u where u: "status self1 name = Some u" "\<not> py_eq u st" by auto
  from Suc.prems(2) obtain s' where g: "gs (port_write data self1) = Some s'"
    and r: "rounds gs data k s' = Some self2"
    by (auto split: option.splits)
  have a: "\<forall>i<k. \<exists>s u. rounds gs data i s' = Some s \<and> status s name = Some u \<and> \<not> py_eq u st"
  proof (intro allI impI)
    fix i assume "i < k"
    then have "Suc i < Suc k" by simp
    with Suc.prems(3) have "\<exists>s u. rounds gs data (Suc i) self1 = Some s \<and> status s name = Some u \<and> \<not> py_eq u st"
      by blast
    then show "\<exists>s u. rounds gs data i s' = Some s \<and> status s name = Some u \<and> \<not> py_eq u st"
      using g by simp
  qed
  from Suc.IH[OF km r a Suc.prems(4,5)]
  show ?case using u g by (simp add: n)
qed

lemma retry_loop_returns:
  assumes "\<And>s. \<exists>s'. gs s = Some s' \<and> status s' name \<noteq> None"
      and "status self1 name \<noteq> None"
  shows "\<exists>r self2. retry_loop gs name st data n self1 = Some (Inr r, self2)"
  using assms(2)
proof (induction n arbitrary: self1)
  case 0
  then show ?case by auto
next
  case (Suc n)
  then obtain v where v: "status self1 name = Some v" by auto
  from assms(1)[of "port_write data self1"] obtain s' where
    g: "gs (port_write data self1) = Some s'" and k: "status s' name \<noteq> None" by auto
  from Suc.IH[OF k] show ?case using v g by auto
qed

lemma command_data_ok:
  assumes "get_feature_name feature = Inr name"
  shows "\<exists>data. command_data feature st = Inr data"
  using get_feature_name_range[OF assms] by (simp add: command_data_eq)

lemma send_command_after_loop:
  assumes "get_feature_name feature = Inr name"
      and "command_data feature st = Inr data"
      and "gs (port_write data self) = Some self1"
      and "retry_loop gs name st data 5 self1 = Some (Inr retry, self2)"
  shows "send_command gs start finish feature st self
         = Some (if finish - start > timeout * 1000000 then Inl AssertionError
                 else Inr (status self2), self2)"
  using assms by (simp add: send_command_def)

lemma get_packet_frame_status_app:
  "get_packet (frame_status @ s) = Some (packet_161, s)"
  by (simp add: frame_status_def packet_161_def get_packet_def read_frame_def port_read_def
        preamble_def)

lemma get_packet_frame_pool_off_app:
  "get_packet (frame_pool_off @ s) = Some (packet_129, s)"
  by (simp add: frame_pool_off_def packet_129_def get_packet_def read_frame_def port_read_def
        preamble_def)

lemma one_pass_wait_broadcast:
  assumes "get_packet (rx self) = Some (p, rest)"
      and "length p = 15" and "p ! 2 = 15" and "p ! 3 = 16" and "p ! 5 = 9"
  shows "one_pass_wait now self
         = Some (self\<lparr>status := equipment_status now (PStr ''Main'') (PStr ''Broadcast'') p
                                   (status self),
                       ready := True, rx := rest\<rparr>)"
proof -
  let ?cleared = "self\<lparr>ready := False\<rparr>"
  have w: "wait_packet (Some Ctrl_BROADCAST) (status ?cleared) (rx ?cleared)
           = Some (p, PStr ''Main'', PStr ''Broadcast'', status self, rest)"
    using wait_packet_broadcast[of "rx self" p rest "Some Ctrl_BROADCAST" "status self"] assms
    by (simp add: controller_of_values Ctrl_BROADCAST_def)
  have l: "length p = 6 + nat (p ! 5)" "p ! 5 > 8" using assms by simp_all
  show ?thesis
    unfolding one_pass_wait_def read_status_unfold[OF w] decode_status_cases[OF l]
    using assms(2) by (simp add: Let_def)
qed

lemma pool_of_packets:
  "equipment_status now src dst packet_161 st ''pool'' = Some (PStr ''on'')"
  "equipment_status now src dst packet_129 st ''pool'' = Some (PStr ''off'')"
  by (subst equipment_status_features; simp add: packet_161_def packet_129_def bit_iff_odd)+

lemma command_data_POOL_on: "command_data Feature_POOL (PStr ''on'') = Inr pool_on_data"
  by (simp add: command_data_def command_packet_POOL_on array_B_def pool_on_data_def)

lemma one_pass_wait_first:
  "one_pass_wait now (port_write pool_on_data (self_off frame_status)) = Some (after_frame_status now)"
  using one_pass_wait_broadcast[of "port_write pool_on_data (self_off frame_status)" packet_161 "[]" now]
    get_packet_frame_status_app[of "[]"]
  by (simp add: port_write_def self_off_def after_frame_status_def) (simp add: packet_161_def)

lemma after_frame_status_pool: "status (after_frame_status now) ''pool'' = Some (PStr ''on'')"
  by (simp add: after_frame_status_def pool_of_packets)

lemma retry_loop_confirmed:
  "retry_loop (one_pass_wait now) ''pool'' (PStr ''on'') pool_on_data 5 (after_frame_status now)
   = Some (Inr 5, after_frame_status now)"
  using retry_loop_rounds[of 0 5 "one_pass_wait now" pool_on_data "after_frame_status now"
          "after_frame_status now" "''pool''" "PStr ''on''" "PStr ''on''"]
  by (simp add: after_frame_status_pool)

lemma send_command_blocks:
  assumes "get_feature_name feature = Inr name" and "command_data feature st = Inr data"
      and "gs (port_write data self) = None"
  shows "send_command gs start finish feature st self = None"
  using assms by (simp add: send_command_def)

lemma one_pass_wait_silent: "rx self = [] \<Longrightarrow> one_pass_wait now self = None"
  by (simp add: one_pass_wait_def read_status_def wait_packet.simps[of _ _ "[]"]
        get_packet_def read_frame_def preamble_def)

text \<open>
  C2, as stated, fails. The clock is read once, at line 152, behind the waits of lines 143
  and 147, and \<^verbatim>\<open>get_status\<close> has no bound of its own. On a bus that stays silent the first
  wait never ends: the call has written the command once and never returns, so no timeout
  is signalled, however late it gets (\<open>send_command_blocks\<close>: for every pair of clock
  readings).
\<close>

theorem timeout_not_raised_counterexample:
  "get_feature_name Feature_POOL = Inr ''pool''
   \<and> rx (port_write pool_on_data (self_off [])) = []
   \<and> one_pass_wait 77 (port_write pool_on_data (self_off [])) = None
   \<and> (6000000 :: int) - 0 > timeout * 1000000
   \<and> send_command (one_pass_wait 77) 0 6000000 Feature_POOL (PStr ''on'') (self_off []) = None"
proof -
  have r: "rx (port_write pool_on_data (self_off [])) = []"
    by (simp add: port_write_def self_off_def)
  have w: "one_pass_wait 77 (port_write pool_on_data (self_off [])) = None"
    by (rule one_pass_wait_silent[OF r])
  have "send_command (one_pass_wait 77) 0 6000000 Feature_POOL (PStr ''on'') (self_off []) = None"
    by (rule send_command_blocks[of Feature_POOL "''pool''" "PStr ''on''" pool_on_data
              "one_pass_wait 77" "self_off []", OF get_feature_name_POOL command_data_POOL_on w])
  then show ?thesis
    using r w by (simp add: get_feature_name_POOL timeout_def)
qed

text \<open>
  C2, amended: for every call of \<^verbatim>\<open>send_command\<close> whose waits return (the first reading
  arrives and the retry loop ends without an exception), if the clock read then is more
  than five seconds past the reading taken after the first write, the call raises the
  timeout \<^verbatim>\<open>AssertionError\<close>, with whatever value of \<^verbatim>\<open>retry\<close>: the test does not look at the
  retry counter. In the witness all five retries remain. By \<open>retry_loop_returns\<close> the
  loop ends whenever every wait returns a dictionary that holds the feature.
\<close>

theorem timeout_whatever_retry:
  assumes "get_feature_name feature = Inr name"
      and "command_data feature st = Inr data"
      and "gs (port_write data self) = Some self1"
      and "retry_loop gs name st data 5 self1 = Some (Inr retry, self2)"
      and "finish - start > timeout * 1000000"
  shows "send_command gs start finish feature st self = Some (Inl AssertionError, self2)"
  using assms by (simp add: send_command_def)

theorem timeout_whatever_retry_witness:
  "get_feature_name Feature_POOL = Inr ''pool''
   \<and> one_pass_wait 77 (port_write pool_on_data (self_off frame_status))
       = Some (after_frame_status 77)
   \<and> retry_loop (one_pass_wait 77) ''pool'' (PStr ''on'') pool_on_data 5 (after_frame_status 77)
       = Some (Inr 5, after_frame_status 77)
   \<and> (6000000 :: int) - 0 > timeout * 1000000
   \<and> send_command (one_pass_wait 77) 0 6000000 Feature_POOL (PStr ''on'') (self_off frame_status)
       = Some (Inl AssertionError, after_frame_status 77)"
proof -
  have t: "(6000000 :: int) - 0 > timeout * 1000000" by (simp add: timeout_def)
  from timeout_whatever_retry[OF get_feature_name_POOL command_data_POOL_on one_pass_wait_first
         retry_loop_confirmed t]
  show ?thesis
    using t by (simp add: get_feature_name_POOL one_pass_wait_first retry_loop_confirmed)
qed

text \<open>
  C6, as stated, fails: the first reading reports the pool on, as desired, and the call
  raises the timeout \<^verbatim>\<open>AssertionError\<close>, the clock being 5.000001 seconds past the start.
\<close>

theorem confirmed_but_late_counterexample:
  "get_feature_name Feature_POOL = Inr ''pool''
   \<and> one_pass_wait 78 (port_write pool_on_data (self_off frame_status))
       = Some (after_frame_status 78)
   \<and> status (after_frame_status 78) ''pool'' = Some (PStr ''on'')
   \<and> send_command (one_pass_wait 78) 0 5000001 Feature_POOL (PStr ''on'') (self_off frame_status)
       = Some (Inl AssertionError, after_frame_status 78)"
  using send_command_after_loop[OF get_feature_name_POOL command_data_POOL_on one_pass_wait_first
          retry_loop_confirmed, of 78 0 5000001]
  by (simp add: get_feature_name_POOL one_pass_wait_first after_frame_status_pool timeout_def)

text \<open>
  C6, amended: when the reading awaited after the first write or after one of at most five
  retries is the first to report the target feature equal to the desired state, and the
  clock read then is at most five seconds past the start, the call returns the whole
  dictionary of the object as it is then, the target feature among its entries. With the
  confirmation in the first reading (\<open>k = 0\<close>) no retry is made.
\<close>

theorem confirmed_within_timeout:
  assumes "get_feature_name feature = Inr name"
      and "command_data feature st = Inr data"
      and "k \<le> 5"
      and "rounds gs data (Suc k) self = Some self2"
      and "\<forall>i<k. \<exists>s u. rounds gs data (Suc i) self = Some s \<and> status s name = Some u
                       \<and> \<not> py_eq u st"
      and "status self2 name = Some v" and "py_eq v st"
      and "finish - start \<le> timeout * 1000000"
  shows "send_command gs start finish feature st self = Some (Inr (status self2), self2)"
proof -
  from assms(4) obtain self1 where g: "gs (port_write data self) = Some self1"
    and r: "rounds gs data k self1 = Some self2"
    by (auto split: option.splits)
  have a: "\<forall>i<k. \<exists>s u. rounds gs data i self1 = Some s \<and> status s name = Some u \<and> \<not> py_eq u st"
    using assms(5) g by simp
  have "retry_loop gs name st data 5 self1 = Some (Inr (5 - k), self2)"
    by (rule retry_loop_rounds[OF assms(3) r a assms(6,7)])
  then show ?thesis using assms(1,2,8) g by (simp add: send_command_def)
qed

theorem confirmed_within_timeout_witness:
  "get_feature_name Feature_POOL = Inr ''pool''
   \<and> send_command (one_pass_wait 77) 0 1000000 Feature_POOL (PStr ''on'') (self_off frame_status)
       = Some (Inr (status (after_frame_status 77)), after_frame_status 77)
   \<and> status (after_frame_status 77) ''pool'' = Some (PStr ''on'')
   \<and> status (after_frame_status 77) ''source'' = Some (PStr ''Main'')
   \<and> status (after_frame_status 77) ''last_update'' = Some (PDateTime 77)
   \<and> tx (after_frame_status 77) = [pool_on_data]
   \<and> (\<exists>self2. send_command (one_pass_wait 77) 0 1000000 Feature_POOL (PStr ''on'')
                    (self_off (frame_pool_off @ frame_status))
                  = Some (Inr (status self2), self2)
        \<and> status self2 ''pool'' = Some (PStr ''on'')
        \<and> tx self2 = [pool_on_data, pool_on_data] \<and> rx self2 = [])"
proof -
  let ?gs = "one_pass_wait 77"
  let ?on = "PStr ''on''"
  have t: "(1000000 :: int) - 0 \<le> timeout * 1000000" by (simp add: timeout_def)
  \<comment> \<open>confirmation by the first reading\<close>
  have r0: "rounds ?gs pool_on_data (Suc 0) (self_off frame_status) = Some (after_frame_status 77)"
    by (simp add: one_pass_wait_first)
  have a0: "\<forall>i<0::nat. \<exists>s u. rounds ?gs pool_on_data (Suc i) (self_off frame_status) = Some s
              \<and> status s ''pool'' = Some u \<and> \<not> py_eq u ?on"
    by simp
  have p0: "status (after_frame_status 77) ''pool'' = Some ?on" by (rule after_frame_status_pool)
  have e0: "py_eq ?on ?on" by simp
  note w0 = confirmed_within_timeout[OF get_feature_name_POOL command_data_POOL_on _ r0 a0 p0 e0 t]
  \<comment> \<open>confirmation by the second reading, after one retry\<close>
  let ?self = "self_off (frame_pool_off @ frame_status)"
  define s1 where "s1 = \<lparr>status = equipment_status 77 (PStr ''Main'') (PStr ''Broadcast'')
        packet_129 [''pool'' \<mapsto> PStr ''off''], ready = True, rx = frame_status,
        tx = [pool_on_data]\<rparr>"
  define s2 where "s2 = \<lparr>status = equipment_status 77 (PStr ''Main'') (PStr ''Broadcast'')
        packet_161 (status s1), ready = True, rx = [], tx = [pool_on_data, pool_on_data]\<rparr>"
  have g1: "?gs (port_write pool_on_data ?self) = Some s1"
    using one_pass_wait_broadcast[of "port_write pool_on_data ?self" packet_129 frame_status 77]
      get_packet_frame_pool_off_app[of frame_status]
    by (simp add: port_write_def self_off_def s1_def) (simp add: packet_129_def)
  have g2: "?gs (port_write pool_on_data s1) = Some s2"
    using one_pass_wait_broadcast[of "port_write pool_on_data s1" packet_161 "[]" 77]
      get_packet_frame_status_app[of "[]"]
    by (simp add: port_write_def s1_def s2_def) (simp add: packet_161_def)
  have r1: "rounds ?gs pool_on_data (Suc (Suc 0)) ?self = Some s2"
    by (simp add: g1 g2)
  have q1: "status s1 ''pool'' = Some (PStr ''off'')" by (simp add: s1_def pool_of_packets)
  have a1: "\<forall>i<Suc 0. \<exists>s u. rounds ?gs pool_on_data (Suc i) ?self = Some s
              \<and> status s ''pool'' = Some u \<and> \<not> py_eq u ?on"
    using g1 q1 by simp
  have p1: "status s2 ''pool'' = Some ?on" by (simp add: s2_def pool_of_packets)
  note w1 = confirmed_within_timeout[OF get_feature_name_POOL command_data_POOL_on _ r1 a1 p1 e0 t]
  have x: "tx s2 = [pool_on_data, pool_on_data]" "rx s2 = []" by (simp_all add: s2_def)
  have f: "status (after_frame_status 77) ''source'' = Some (PStr ''Main'')"
    "status (after_frame_status 77) ''last_update'' = Some (PDateTime 77)"
    "tx (after_frame_status 77) = [pool_on_data]"
    by (simp_all add: after_frame_status_def equipment_status_lookup)
  from w0 w1 show ?thesis
    using p0 p1 x f by (auto simp: get_feature_name_POOL)
qed

section \<open>What \<^verbatim>\<open>send_command\<close> writes\<close>

text \<open>
  Neither \<^verbatim>\<open>read_status\<close> nor \<^verbatim>\<open>get_status\<close> writes to the port.
\<close>

lemma decode_status_tx: "tx (snd (decode_status now src dst packet self)) = tx self"
  by (simp add: decode_status_def Let_def)

lemma read_status_tx:
  assumes "read_status controller now self = Some (e, self')"
  shows "tx self' = tx self"
proof -
  from assms obtain packet src dst st rest where
    d: "decode_status now src dst packet (self\<lparr>status := st, rx := rest\<rparr>) = (e, self')"
    by (auto simp: read_status_def split: option.splits prod.splits)
  from decode_status_tx[of now src dst packet "self\<lparr>status := st, rx := rest\<rparr>"] d
  show ?thesis by simp
qed

lemma one_pass_wait_tx: "one_pass_wait now s = Some s' \<Longrightarrow> tx s' = tx s"
  by (auto simp: one_pass_wait_def split: option.splits prod.splits if_splits
           dest!: read_status_tx)

lemma retry_loop_tx:
  assumes "\<forall>s s'. gs s = Some s' \<longrightarrow> tx s' = tx s"
      and "retry_loop gs name st data r self1 = Some (res, self2)"
  shows "\<exists>k\<le>r. tx self2 = tx self1 @ replicate k data"
  using assms(2)
proof (induction r arbitrary: self1)
  case 0
  then show ?case by (auto split: option.splits)
next
  case (Suc r)
  show ?case
  proof (cases "\<exists>v. status self1 name = Some v \<and> \<not> py_eq v st")
    case False
    with Suc.prems have "self2 = self1" by (auto split: option.splits if_splits)
    then show ?thesis by auto
  next
    case True
    with Suc.prems obtain s' where g: "gs (port_write data self1) = Some s'"
      and l: "retry_loop gs name st data r s' = Some (res, self2)"
      by (auto split: option.splits if_splits)
    from assms(1) g have t: "tx s' = tx self1 @ [data]" by (auto simp: port_write_def)
    from Suc.IH[OF l] obtain k where k: "k \<le> r" "tx self2 = tx s' @ replicate k data" by auto
    have "tx self2 = tx self1 @ replicate (Suc k) data"
      using k(2) t by (simp add: replicate_append_same)
    with k(1) show ?thesis by (intro exI[of _ "Suc k"]) simp
  qed
qed

lemma retry_loop_guarded:
  assumes "\<forall>s s'. gs s = Some s' \<longrightarrow> tx s' = tx s"
      and "tx self1 = tx0 @ replicate (Suc m) data" and "m + r \<le> M"
  shows "retry_loop gs name st data r self1
         = retry_loop (\<lambda>s. if \<exists>n\<le>M. tx s = tx0 @ replicate (Suc n) data then gs s else None)
             name st data r self1"
  using assms(2,3)
proof (induction r arbitrary: self1 m)
  case 0
  show ?case by simp
next
  case (Suc r)
  have w: "tx (port_write data self1) = tx0 @ replicate (Suc (Suc m)) data"
    using Suc.prems(1) by (simp add: port_write_def replicate_append_same)
  have le: "Suc m \<le> M" using Suc.prems(2) by simp
  have ok: "\<exists>n\<le>M. tx (port_write data self1) = tx0 @ replicate (Suc n) data"
    using w le by blast
  show ?case
  proof (cases "gs (port_write data self1)")
    case None
    then show ?thesis using ok by (simp split: option.splits)
  next
    case (Some s')
    with assms(1) w have t: "tx s' = tx0 @ replicate (Suc (Suc m)) data" by auto
    have "Suc m + r \<le> M" using Suc.prems(2) by simp
    from Suc.IH[OF t this] show ?thesis using Some ok by (simp split: option.splits)
  qed
qed

text \<open>
  C10: for every call of \<^verbatim>\<open>send_command\<close> with a feature it accepts, and a \<^verbatim>\<open>get_status\<close> that
  leaves the written bytes alone, all that the call writes is one to six copies of the
  same twelve bytes \<open>data\<close>, whose state byte (the second payload byte, at index 9) is 1
  exactly when the \<^verbatim>\<open>state\<close> argument is the string \<^verbatim>\<open>"on"\<close>, and 0 for every other value:
  another string, the integer 1, the boolean \<^verbatim>\<open>True\<close>. This holds of the object a call
  ends with, and of every object on which a call waits, whether or not it returns:
  a \<^verbatim>\<open>get_status\<close> that refuses every object with other bytes written changes nothing.
\<close>

theorem transmitted_state_byte:
  assumes "get_feature_name feature = Inr name"
      and "\<forall>s s'. gs s = Some s' \<longrightarrow> tx s' = tx s"
  shows "\<exists>data. command_data feature st = Inr data \<and> length data = 12
           \<and> data ! 8 = word_of_int feature
           \<and> data ! 9 = (if st = PStr ''on'' then 1 else 0)
           \<and> (\<forall>res self'. send_command gs start finish feature st self = Some (res, self')
                 \<longrightarrow> (\<exists>n\<le>5. tx self' = tx self @ replicate (Suc n) data))
           \<and> send_command gs start finish feature st self
               = send_command
                   (\<lambda>s. if \<exists>n\<le>5. tx s = tx self @ replicate (Suc n) data then gs s else None)
                   start finish feature st self"
proof -
  from get_feature_name_range[OF assms(1)] have f: "1 \<le> feature" "feature \<le> 9" by auto
  obtain data where d: "command_data feature st = Inr data"
    using f by (simp add: command_data_eq)
  have b: "length data = 12" "data ! 8 = word_of_int feature"
    "data ! 9 = (if st = PStr ''on'' then 1 else 0)"
    using d f by (auto simp: command_data_eq)
  let ?G = "\<lambda>s. if \<exists>n\<le>5. tx s = tx self @ replicate (Suc n) data then gs s else None"
  have w: "tx (port_write data self) = tx self @ replicate (Suc 0) data"
    by (simp add: port_write_def)
  then have g0: "?G (port_write data self) = gs (port_write data self)" by auto
  have r: "\<forall>res self'. send_command gs start finish feature st self = Some (res, self')
             \<longrightarrow> (\<exists>n\<le>5. tx self' = tx self @ replicate (Suc n) data)"
  proof (intro allI impI)
    fix res self' assume s: "send_command gs start finish feature st self = Some (res, self')"
    then obtain self1 where g: "gs (port_write data self) = Some self1"
      using assms(1) d by (auto simp: send_command_def split: option.splits)
    from s g obtain r0 where l: "retry_loop gs name st data 5 self1 = Some (r0, self')"
      using assms(1) d
      by (auto simp: send_command_def split: option.splits sum.splits prod.splits if_splits)
    from assms(2) g w have t: "tx self1 = tx self @ replicate (Suc 0) data" by auto
    from retry_loop_tx[OF assms(2) l] obtain k where
      k: "k \<le> 5" "tx self' = tx self1 @ replicate k data" by auto
    have "tx self' = tx self @ replicate (Suc k) data"
      using k(2) t by (simp add: replicate_append_same)
    with k(1) show "\<exists>n\<le>5. tx self' = tx self @ replicate (Suc n) data" by blast
  qed
  have e: "send_command gs start finish feature st self
           = send_command ?G start finish feature st self"
  proof (cases "gs (port_write data self)")
    case None
    then show ?thesis using assms(1) d g0 by (simp add: send_command_def)
  next
    case (Some self1)
    with assms(2) w have t: "tx self1 = tx self @ replicate (Suc 0) data" by auto
    have "retry_loop gs name st data 5 self1 = retry_loop ?G name st data 5 self1"
      by (rule retry_loop_guarded[OF assms(2) t]) simp
    then show ?thesis using assms(1) d g0 Some by (simp add: send_command_def)
  qed
  show ?thesis using d b r e by blast
qed

theorem transmitted_state_byte_witness:
  "get_feature_name Feature_POOL = Inr ''pool''
   \<and> send_command (one_pass_wait 77) 0 1000000 Feature_POOL (PStr ''on'') (self_off frame_status)
       = Some (Inr (status (after_frame_status 77)), after_frame_status 77)
   \<and> tx (after_frame_status 77) = tx (self_off frame_status) @ [pool_on_data]
   \<and> pool_on_data ! 9 = 1
   \<and> (\<exists>data. command_data Feature_POOL (PStr ''off'') = Inr data \<and> data ! 9 = 0)
   \<and> (\<exists>data. command_data Feature_POOL (PStr ''On'') = Inr data \<and> data ! 9 = 0)
   \<and> (\<exists>data. command_data Feature_POOL (PInt 1) = Inr data \<and> data ! 9 = 0)
   \<and> (\<exists>data. command_data Feature_POOL (PBool True) = Inr data \<and> data ! 9 = 0)"
proof -
  have p: "\<forall>s s'. one_pass_wait 77 s = Some s' \<longrightarrow> tx s' = tx s"
    using one_pass_wait_tx by blast
  note t = transmitted_state_byte[OF get_feature_name_POOL p]
  have r: "send_command (one_pass_wait 77) 0 1000000 Feature_POOL (PStr ''on'')
             (self_off frame_status)
           = Some (Inr (status (after_frame_status 77)), after_frame_status 77)"
    using send_command_after_loop[OF get_feature_name_POOL command_data_POOL_on
            one_pass_wait_first retry_loop_confirmed, of 77 0 1000000]
    by (simp add: timeout_def)
  have x: "tx (after_frame_status 77) = tx (self_off frame_status) @ [pool_on_data]"
    by (simp add: after_frame_status_def self_off_def)
  have y: "pool_on_data ! 9 = 1" by (simp add: pool_on_data_def)
  from t[of "PStr ''off''" 0 0 "self_off frame_status"]
  have a: "\<exists>data. command_data Feature_POOL (PStr ''off'') = Inr data \<and> data ! 9 = 0" by auto
  from t[of "PStr ''On''" 0 0 "self_off frame_status"]
  have b: "\<exists>data. command_data Feature_POOL (PStr ''On'') = Inr data \<and> data ! 9 = 0" by auto
  from t[of "PInt 1" 0 0 "self_off frame_status"]
  have c: "\<exists>data. command_data Feature_POOL (PInt 1) = Inr data \<and> data ! 9 = 0" by auto
  from t[of "PBool True" 0 0 "self_off frame_status"]
  have d: "\<exists>data. command_data Feature_POOL (PBool True) = Inr data \<and> data ! 9 = 0" by auto
  from t[of "PStr ''on''" 0 1000000 "self_off frame_status"] r
  have "\<exists>n\<le>5. tx (after_frame_status 77)
          = tx (self_off frame_status) @ replicate (Suc n) pool_on_data"
    by (auto simp: command_data_POOL_on)
  then show ?thesis using r x y a b c d by (simp add: get_feature_name_POOL)
qed

section \<open>The wait of \<^verbatim>\<open>get_status\<close>\<close>

text \<open>
  What a caller of \<^verbatim>\<open>get_status\<close> gets depends on what the polling thread does during the
  wait. A wait during which the flag is never set does not return; on a silent bus that
  is every wait.
\<close>

lemma sleep_until_ready_never_all:
  assumes "sleep_until_ready env i self = Some y"
  shows "\<forall>I. (\<forall>i s. I s \<longrightarrow> I (env i s)) \<and> (\<forall>s. I s \<longrightarrow> \<not> ready s) \<longrightarrow> \<not> I self"
proof (rule sleep_until_ready.raw_induct
    [where P = "\<lambda>env i self y. \<forall>I. (\<forall>i s. I s \<longrightarrow> I (env i s)) \<and> (\<forall>s. I s \<longrightarrow> \<not> ready s)
                                  \<longrightarrow> \<not> I self", OF _ assms])
  fix f :: "(nat \<Rightarrow> pentair \<Rightarrow> pentair) \<Rightarrow> nat \<Rightarrow> pentair \<Rightarrow> pentair option"
  fix e j s z
  assume ih: "\<And>e j s z. f e j s = Some z \<Longrightarrow>
                \<forall>I. (\<forall>i s. I s \<longrightarrow> I (e i s)) \<and> (\<forall>s. I s \<longrightarrow> \<not> ready s) \<longrightarrow> \<not> I s"
    and b: "(if ready s then Some s else f e (Suc j) (e j s)) = Some z"
  show "\<forall>I. (\<forall>i s. I s \<longrightarrow> I (e i s)) \<and> (\<forall>s. I s \<longrightarrow> \<not> ready s) \<longrightarrow> \<not> I s"
  proof (cases "ready s")
    case True
    then show ?thesis by blast
  next
    case False
    with b have "f e (Suc j) (e j s) = Some z" by simp
    from ih[OF this] show ?thesis by blast
  qed
qed

lemma sleep_until_ready_never:
  assumes "sleep_until_ready env i self = Some y"
      and "\<And>i s. I s \<Longrightarrow> I (env i s)" and "\<And>s. I s \<Longrightarrow> \<not> ready s"
  shows "\<not> I self"
proof -
  from sleep_until_ready_never_all[OF assms(1)]
  have "(\<forall>i s. I s \<longrightarrow> I (env i s)) \<and> (\<forall>s. I s \<longrightarrow> \<not> ready s) \<longrightarrow> \<not> I self"
    by (rule spec)
  moreover have "\<forall>i s. I s \<longrightarrow> I (env i s)" using assms(2) by blast
  moreover have "\<forall>s. I s \<longrightarrow> \<not> ready s" using assms(3) by blast
  ultimately show ?thesis by blast
qed

lemma pass_silent: "rx s = [] \<Longrightarrow> pass now s = s"
  by (simp add: pass_def read_status_def wait_packet.simps[of _ _ "[]"]
        get_packet_def read_frame_def preamble_def)

lemma get_status_silent:
  assumes "rx self = []"
  shows "get_status (\<lambda>i. pass (clock i)) self = None"
proof (rule ccontr)
  assume "get_status (\<lambda>i. pass (clock i)) self \<noteq> None"
  then obtain y where
    y: "sleep_until_ready (\<lambda>i. pass (clock i)) 0 (self\<lparr>ready := False\<rparr>) = Some y"
    by (auto simp: get_status_def)
  have "\<not> (rx (self\<lparr>ready := False\<rparr>) = [] \<and> \<not> ready (self\<lparr>ready := False\<rparr>))"
    by (rule sleep_until_ready_never[OF y, where I = "\<lambda>s. rx s = [] \<and> \<not> ready s"])
       (simp_all add: pass_silent)
  then show False using assms by simp
qed

text \<open>
  When the thread sets the flag during the first sleep, the wait returns the object as
  the thread has left it then. \<open>one_pass_wait\<close> is the run in which the thread completes one
  pass meanwhile. After a pass over a short frame, and when the thread only executes
  lines 217 and 218 of a pass whose entries it wrote before the flag was cleared, the
  caller finds the flag set and the dictionary it had: the flag and the dictionary are
  not written together. When two frames arrive during the sleep, the caller gets the
  dictionary after both passes.
\<close>

lemma get_status_first_sleep:
  assumes "ready (env 0 (self\<lparr>ready := False\<rparr>))"
  shows "get_status env self = Some (env 0 (self\<lparr>ready := False\<rparr>))"
  using assms
  by (simp add: get_status_def sleep_until_ready.simps[of env 0]
        sleep_until_ready.simps[of env "Suc 0"])

lemma get_status_one_pass:
  assumes "one_pass_wait now self = Some self'"
  shows "get_status (\<lambda>i. pass now) self = Some self'"
proof -
  from assms have r: "read_status (Some Ctrl_BROADCAST) now (self\<lparr>ready := False\<rparr>)
                      = Some (None, self')" and d: "ready self'"
    by (auto simp: one_pass_wait_def split: option.splits prod.splits if_splits)
  have "pass now (self\<lparr>ready := False\<rparr>) = self'" by (simp add: pass_def r)
  then show ?thesis using d get_status_first_sleep[of "\<lambda>i. pass now" self] by simp
qed

lemma get_status_flag_only:
  "get_status (\<lambda>i. set_ready) self = Some (self\<lparr>ready := True\<rparr>)"
  using get_status_first_sleep[of "\<lambda>i. set_ready" self] by (simp add: set_ready_def)

lemma get_status_short_frame:
  "get_status (\<lambda>i. pass 77) (self_off frame_33)
   = Some \<lparr>status = [''pool'' \<mapsto> PStr ''off''], ready = True, rx = [], tx = []\<rparr>"
proof -
  have f: "(self_off frame_33)\<lparr>ready := False\<rparr> = self_off frame_33"
    by (simp add: self_off_def)
  have "one_pass_wait 77 (self_off frame_33)
        = Some \<lparr>status = [''pool'' \<mapsto> PStr ''off''], ready = True, rx = [], tx = []\<rparr>"
    by (simp add: one_pass_wait_def f read_status_frame_33)
  then show ?thesis by (rule get_status_one_pass)
qed

lemma get_status_two_passes:
  "get_status (\<lambda>i. pass 78 \<circ> pass 77) (self_off (frame_pool_off @ frame_status))
   = Some \<lparr>status = equipment_status 78 (PStr ''Main'') (PStr ''Broadcast'') packet_161
                     (equipment_status 77 (PStr ''Main'') (PStr ''Broadcast'') packet_129
                        [''pool'' \<mapsto> PStr ''off'']),
           ready = True, rx = [], tx = []\<rparr>"
proof -
  let ?s0 = "(self_off (frame_pool_off @ frame_status))\<lparr>ready := False\<rparr>"
  let ?s1 = "\<lparr>status = equipment_status 77 (PStr ''Main'') (PStr ''Broadcast'') packet_129
                        [''pool'' \<mapsto> PStr ''off''],
              ready = True, rx = frame_status, tx = []\<rparr>"
  let ?s2 = "\<lparr>status = equipment_status 78 (PStr ''Main'') (PStr ''Broadcast'') packet_161
                     (equipment_status 77 (PStr ''Main'') (PStr ''Broadcast'') packet_129
                        [''pool'' \<mapsto> PStr ''off'']),
           ready = True, rx = [], tx = []\<rparr>"
  have a: "one_pass_wait 77 ?s0 = Some ?s1"
    using one_pass_wait_broadcast[of ?s0 packet_129 frame_status 77]
      get_packet_frame_pool_off_app[of frame_status]
    by (simp add: self_off_def) (simp add: packet_129_def)
  have b: "one_pass_wait 78 ?s1 = Some ?s2"
    using one_pass_wait_broadcast[of ?s1 packet_161 "[]" 78]
      get_packet_frame_status_app[of "[]"]
    by simp (simp add: packet_161_def)
  have a': "pass 77 ?s0 = ?s1"
    using a by (auto simp: one_pass_wait_def pass_def split: option.splits prod.splits if_splits)
  have b': "pass 78 (?s1\<lparr>ready := False\<rparr>) = ?s2"
    using b by (auto simp: one_pass_wait_def pass_def split: option.splits prod.splits if_splits)
  have c: "pass 78 ?s1 = ?s2"
  proof -
    from b have r: "read_status (Some Ctrl_BROADCAST) 78 (?s1\<lparr>ready := False\<rparr>) = Some (None, ?s2)"
      by (auto simp: one_pass_wait_def split: option.splits prod.splits if_splits)
    have w: "wait_packet (Some Ctrl_BROADCAST) (status ?s1) (rx ?s1)
             = Some (packet_161, PStr ''Main'', PStr ''Broadcast'', status ?s1, [])"
      using wait_packet_frame_status[of "Some Ctrl_BROADCAST" "status ?s1"]
      by (simp add: packet_161_def)
    have l: "length packet_161 = 6 + nat (packet_161 ! 5)" "packet_161 ! 5 > 8"
      by (simp_all add: packet_161_def)
    show ?thesis
      unfolding pass_def read_status_unfold[OF w] decode_status_cases[OF l]
      by (simp add: Let_def packet_161_def)
  qed
  have "(pass 78 \<circ> pass 77) ?s0 = ?s2" using a' c by simp
  then show ?thesis
    using get_status_first_sleep[of "\<lambda>i. pass 78 \<circ> pass 77" "self_off (frame_pool_off @ frame_status)"]
    by simp
qed

end
